theory Spec2Isabelle
  imports Main "HOL-Library.Sublist"
begin

section \<open>Python values and exceptions\<close>

text \<open>
  A Python \<open>str\<close> is held as the list of octets of its UTF-8 encoding, \<open>bytes\<close> as the
  list of its octets. Every string operation the program uses (equality, \<open>replace\<close>,
  \<open>partition\<close>, \<open>strip\<close>, \<open>in\<close> with ASCII patterns) gives the same answer on the
  encoding as on the code points, because UTF-8 is self-synchronising.
\<close>

type_synonym pystr = string
type_synonym bytes = string

datatype exn =
  LDAPReferralError
  | ValueError
  | IndexError
  | AttributeError
  | KeyError
  | UnicodeDecodeError
  | LDAPError

text \<open>
  The values an attribute of a server object can hold, as \<open>getattr\<close> returns them:
  \<open>None\<close>, a \<open>bool\<close>, an \<open>int\<close> or a \<open>str\<close>.
\<close>

datatype pyval = PNone | PBool bool | PInt int | PStr pystr

text \<open>Python's \<open>==\<close> on these values: \<open>bool\<close> is a subclass of \<open>int\<close>, so
  \<open>True == 1\<close> and \<open>False == 0\<close>; values of different kinds are otherwise unequal.\<close>

fun py_eq :: "pyval \<Rightarrow> pyval \<Rightarrow> bool" where
  "py_eq PNone PNone = True"
| "py_eq (PBool a) (PBool b) = (a = b)"
| "py_eq (PInt a) (PInt b) = (a = b)"
| "py_eq (PStr a) (PStr b) = (a = b)"
| "py_eq (PBool a) (PInt b) = ((if a then 1 else 0) = b)"
| "py_eq (PInt a) (PBool b) = (a = (if b then 1 else 0))"
| "py_eq _ _ = False"

text \<open>\<open>xs.count(x)\<close> and \<open>x in xs\<close> for a list of such values.\<close>

definition py_count :: "pyval list \<Rightarrow> pyval \<Rightarrow> nat" where
  "py_count xs x = length (filter (\<lambda>y. py_eq y x) xs)"

definition py_in :: "pyval \<Rightarrow> pyval list \<Rightarrow> bool" where
  "py_in x xs = list_ex (\<lambda>y. py_eq y x) xs"

section \<open>The server object\<close>

datatype scope = SCOPE_BASE | SCOPE_ONELEVEL | SCOPE_SUBTREE

record query =
  q_base :: pystr
  q_scope :: scope
  q_fltr :: pystr
  q_attrs :: "pystr list option"

text \<open>
  The attributes of a \<open>FreeIPAServer\<close> object, with the types its constructor declares.
  An attribute that is not yet set is \<open>None\<close> in the option-typed private fields.
  \<open>searches\<close> is not an attribute of the source: it records, in order, the queries
  handed to the connection's \<open>search_s\<close>.
\<close>

record server =
  conn :: bool
  domain_name :: pystr
  url :: pystr
  hostname_short :: pystr
  fqdn :: "pystr option"
  base_dn :: pystr
  active_user_base :: pystr
  stage_user_base :: pystr
  preserved_user_base :: pystr
  groups_base :: pystr
  users :: "pystr option"
  susers :: "pystr option"
  pusers :: "pystr option"
  hosts :: "int option"
  services :: "int option"
  ugroups :: "int option"
  hgroups :: "pystr option"
  ngroups :: "int option"
  hbac :: "int option"
  sudo :: "int option"
  zones :: "int option"
  certs :: "int option"
  conflicts :: "int option"
  ghosts :: "int option"
  bind :: "pystr option"
  msdcs :: "bool option"
  replicas :: "pystr option"
  healthy_agreements :: bool
  searches :: "query list"

definition of_str_opt :: "pystr option \<Rightarrow> pyval" where
  "of_str_opt v = (case v of None \<Rightarrow> PNone | Some s \<Rightarrow> PStr s)"

definition of_int_opt :: "int option \<Rightarrow> pyval" where
  "of_int_opt v = (case v of None \<Rightarrow> PNone | Some i \<Rightarrow> PInt i)"

definition of_bool_opt :: "bool option \<Rightarrow> pyval" where
  "of_bool_opt v = (case v of None \<Rightarrow> PNone | Some b \<Rightarrow> PBool b)"

text \<open>\<open>getattr(server, name)\<close> for the names the checker asks for; any other name is an
  \<open>AttributeError\<close>.\<close>

definition getattr :: "server \<Rightarrow> pystr \<Rightarrow> exn + pyval" where
  "getattr s name =
    (if name = ''users'' then Inr (of_str_opt (users s))
     else if name = ''susers'' then Inr (of_str_opt (susers s))
     else if name = ''pusers'' then Inr (of_str_opt (pusers s))
     else if name = ''hosts'' then Inr (of_int_opt (hosts s))
     else if name = ''services'' then Inr (of_int_opt (services s))
     else if name = ''ugroups'' then Inr (of_int_opt (ugroups s))
     else if name = ''hgroups'' then Inr (of_str_opt (hgroups s))
     else if name = ''ngroups'' then Inr (of_int_opt (ngroups s))
     else if name = ''hbac'' then Inr (of_int_opt (hbac s))
     else if name = ''sudo'' then Inr (of_int_opt (sudo s))
     else if name = ''zones'' then Inr (of_int_opt (zones s))
     else if name = ''certs'' then Inr (of_int_opt (certs s))
     else if name = ''conflicts'' then Inr (of_int_opt (conflicts s))
     else if name = ''ghosts'' then Inr (of_int_opt (ghosts s))
     else if name = ''bind'' then Inr (of_str_opt (bind s))
     else if name = ''msdcs'' then Inr (of_bool_opt (msdcs s))
     else if name = ''replicas'' then Inr (of_str_opt (replicas s))
     else if name = ''hostname_short'' then Inr (PStr (hostname_short s))
     else if name = ''healthy_agreements'' then Inr (PBool (healthy_agreements s))
     else Inl AttributeError)"

section \<open>ConsistencyChecker\<close>

text \<open>
  \<open>self.servers\<close> is an ordered dictionary from host names to server objects: an
  association list in insertion order. The constructor refuses an empty one.
\<close>

type_synonym servers = "(pystr \<times> server) list"

definition ConsistencyChecker_init :: "servers \<Rightarrow> exn + servers" where
  "ConsistencyChecker_init svs = (if svs = [] then Inl ValueError else Inr svs)"

definition checks :: "(pystr \<times> pystr) list" where
  "checks =
    [(''users'', ''Active Users''),
     (''susers'', ''Stage Users''),
     (''pusers'', ''Preserved Users''),
     (''hosts'', ''Hosts''),
     (''services'', ''Services''),
     (''ugroups'', ''User Groups''),
     (''hgroups'', ''Host Groups''),
     (''ngroups'', ''Netgroups''),
     (''hbac'', ''HBAC Rules''),
     (''sudo'', ''SUDO Rules''),
     (''zones'', ''DNS Zones''),
     (''certs'', ''Certificates''),
     (''conflicts'', ''LDAP Conflicts''),
     (''ghosts'', ''Ghost Replicas''),
     (''bind'', ''Anonymous BIND''),
     (''msdcs'', ''Microsoft ADTrust''),
     (''replicas'', ''Replication Status'')]"

text \<open>
  \<open>is_consistent\<close>. The three special cases read the attribute of every server of
  \<open>self.servers\<close>, not \<open>check_results\<close>; \<open>xs[0]\<close> on an empty list is an
  \<open>IndexError\<close>.
\<close>

definition is_consistent :: "servers \<Rightarrow> pystr \<Rightarrow> pyval list \<Rightarrow> exn + bool" where
  "is_consistent svs check check_results =
    (if check_results = [] then Inr False
     else if check = ''conflicts'' then
       (let cs = map (\<lambda>(h, s). conflicts s) svs in
        case cs of [] \<Rightarrow> Inl IndexError
        | c0 # _ \<Rightarrow> Inr (count_list cs c0 = length cs \<and> c0 = Some 0))
     else if check = ''ghosts'' then
       (let gs = map (\<lambda>(h, s). ghosts s) svs in
        case gs of [] \<Rightarrow> Inl IndexError
        | g0 # _ \<Rightarrow> Inr (count_list gs g0 = length gs \<and> g0 = Some 0))
     else if check = ''replicas'' then
       (let hs = map (\<lambda>(h, s). healthy_agreements s) svs in
        case hs of [] \<Rightarrow> Inl IndexError
        | h0 # _ \<Rightarrow> Inr (count_list hs h0 = length hs \<and> h0))
     else
       (case check_results of [] \<Rightarrow> Inl IndexError
        | r0 # _ \<Rightarrow>
            Inr (py_count check_results r0 = length check_results
                 \<and> \<not> py_in PNone check_results)))"

text \<open>The structured result of \<open>get_structured_data\<close>.\<close>

record check_data =
  cd_name :: pystr
  cd_display_name :: pystr
  cd_state :: pystr
  cd_is_consistent :: bool
  cd_values :: "(pystr \<times> pyval) list"

record summary =
  total_checks :: int
  consistent_checks :: int
  inconsistent_checks :: int

record structured_data =
  sd_timestamp :: "pystr option"
  sd_domain :: "pystr option"
  sd_servers :: "(pystr \<times> pystr) list"
  sd_checks :: "check_data list"
  sd_summary :: summary

text \<open>A list comprehension whose element expression may raise.\<close>

fun collect :: "('a \<Rightarrow> exn + 'b) \<Rightarrow> 'a list \<Rightarrow> exn + 'b list" where
  "collect f [] = Inr []"
| "collect f (x # xs) =
    (case f x of Inl e \<Rightarrow> Inl e
     | Inr y \<Rightarrow> (case collect f xs of Inl e \<Rightarrow> Inl e | Inr ys \<Rightarrow> Inr (y # ys)))"

text \<open>\<open>d[k] = v\<close> on a dictionary kept in insertion order.\<close>

fun dict_set :: "('k \<times> 'v) list \<Rightarrow> 'k \<Rightarrow> 'v \<Rightarrow> ('k \<times> 'v) list" where
  "dict_set [] k v = [(k, v)]"
| "dict_set ((k', v') # d) k v =
    (if k' = k then (k, v) # d else (k', v') # dict_set d k v)"

text \<open>The first two statements of the loop body: the values of one check across all
  servers, and the verdict on them.\<close>

definition check_results_of :: "servers \<Rightarrow> pystr \<Rightarrow> exn + pyval list" where
  "check_results_of svs check_name = collect (\<lambda>(h, s). getattr s check_name) svs"

definition check_verdict :: "servers \<Rightarrow> pystr \<Rightarrow> exn + bool" where
  "check_verdict svs check_name =
    (case check_results_of svs check_name of Inl e \<Rightarrow> Inl e
     | Inr check_results \<Rightarrow> is_consistent svs check_name check_results)"

fun checks_loop :: "servers \<Rightarrow> (pystr \<times> pystr) list \<Rightarrow> structured_data \<Rightarrow> exn + structured_data" where
  "checks_loop svs [] d = Inr d"
| "checks_loop svs ((check_name, display_name) # rest) d =
    (case check_results_of svs check_name of Inl e \<Rightarrow> Inl e
     | Inr check_results \<Rightarrow>
        (case is_consistent svs check_name check_results of Inl e \<Rightarrow> Inl e
         | Inr ic \<Rightarrow>
            (let hostnames = map fst svs;
                 sm = sd_summary d;
                 sm' = (if ic then sm\<lparr>consistent_checks := consistent_checks sm + 1\<rparr>
                        else sm\<lparr>inconsistent_checks := inconsistent_checks sm + 1\<rparr>);
                 cd = \<lparr>cd_name = check_name, cd_display_name = display_name,
                       cd_state = (if ic then ''OK'' else ''FAIL''),
                       cd_is_consistent = ic,
                       cd_values = fold (\<lambda>(hn, v) dct. dict_set dct hn v)
                                     (zip hostnames check_results) []\<rparr>
             in checks_loop svs rest (d\<lparr>sd_checks := sd_checks d @ [cd], sd_summary := sm'\<rparr>))))"

definition get_structured_data :: "servers \<Rightarrow> exn + structured_data" where
  "get_structured_data svs =
    (let d0 = \<lparr>sd_timestamp = None, sd_domain = None,
               sd_servers = map (\<lambda>(hostname, s). (hostname, hostname_short s)) svs,
               sd_checks = [],
               sd_summary = \<lparr>total_checks = int (length checks),
                              consistent_checks = 0, inconsistent_checks = 0\<rparr>\<rparr>
     in checks_loop svs checks d0)"

section \<open>String operations of Python used by the collector\<close>

text \<open>\<open>s.replace(old, new)\<close>: the occurrences of \<open>old\<close> are found left to right and do
  not overlap; \<open>k\<close> counts the characters of a match still to be skipped.\<close>

fun replace_from :: "pystr \<Rightarrow> pystr \<Rightarrow> nat \<Rightarrow> pystr \<Rightarrow> pystr" where
  "replace_from old new k [] = []"
| "replace_from old new k (c # cs) =
    (if 0 < k then replace_from old new (k - 1) cs
     else if prefix old (c # cs) then new @ replace_from old new (length old - 1) cs
     else c # replace_from old new 0 cs)"

definition py_replace :: "pystr \<Rightarrow> pystr \<Rightarrow> pystr \<Rightarrow> pystr" where
  "py_replace s old new =
    (if old = [] then new @ concat (map (\<lambda>c. c # new) s) else replace_from old new 0 s)"

text \<open>\<open>sub in s\<close> for two strings.\<close>

fun py_contains :: "pystr \<Rightarrow> pystr \<Rightarrow> bool" where
  "py_contains sub [] = (sub = [])"
| "py_contains sub (c # cs) = (prefix sub (c # cs) \<or> py_contains sub cs)"

text \<open>\<open>s.partition(sep)[0]\<close> for a one-character separator, \<open>s.strip(chars)\<close> and
  \<open>sep.join(xs)\<close>.\<close>

definition py_partition_head :: "pystr \<Rightarrow> char \<Rightarrow> pystr" where
  "py_partition_head s sep = takeWhile (\<lambda>c. c \<noteq> sep) s"

definition py_strip :: "pystr \<Rightarrow> pystr \<Rightarrow> pystr" where
  "py_strip s chars =
    rev (dropWhile (\<lambda>c. c \<in> set chars) (rev (dropWhile (\<lambda>c. c \<in> set chars) s)))"

fun py_join :: "pystr \<Rightarrow> pystr list \<Rightarrow> pystr" where
  "py_join sep [] = []"
| "py_join sep [x] = x"
| "py_join sep (x # y # ys) = x @ sep @ py_join sep (y # ys)"

text \<open>\<open>s.upper()\<close>, exact on ASCII text; the program applies it to \<open>on\<close>, \<open>off\<close> and
  \<open>rootdse\<close> only.\<close>

definition py_upper :: "pystr \<Rightarrow> pystr" where
  "py_upper s =
    map (\<lambda>c. case map_of (zip ''abcdefghijklmnopqrstuvwxyz'' ''ABCDEFGHIJKLMNOPQRSTUVWXYZ'') c of
               None \<Rightarrow> c | Some u \<Rightarrow> u) s"

text \<open>\<open>b.decode("utf-8")\<close>: the octets are kept when they are well-formed UTF-8 (no
  overlong form, no surrogate, nothing above U+10FFFF), and the call raises otherwise.\<close>

definition is_cont :: "nat \<Rightarrow> bool" where
  "is_cont b = (128 \<le> b \<and> b \<le> 191)"

fun utf8_valid :: "nat list \<Rightarrow> bool" where
  "utf8_valid [] = True"
| "utf8_valid [b] = (b < 128)"
| "utf8_valid [b, c1] = (if b < 128 then utf8_valid [c1] else 194 \<le> b \<and> b \<le> 223 \<and> is_cont c1)"
| "utf8_valid [b, c1, c2] =
    (if b < 128 then utf8_valid [c1, c2]
     else if 194 \<le> b \<and> b \<le> 223 then is_cont c1 \<and> utf8_valid [c2]
     else if b = 224 then 160 \<le> c1 \<and> c1 \<le> 191 \<and> is_cont c2
     else if b = 237 then 128 \<le> c1 \<and> c1 \<le> 159 \<and> is_cont c2
     else 225 \<le> b \<and> b \<le> 239 \<and> is_cont c1 \<and> is_cont c2)"
| "utf8_valid (b # c1 # c2 # c3 # r) =
    (if b < 128 then utf8_valid (c1 # c2 # c3 # r)
     else if 194 \<le> b \<and> b \<le> 223 then is_cont c1 \<and> utf8_valid (c2 # c3 # r)
     else if b = 224 then 160 \<le> c1 \<and> c1 \<le> 191 \<and> is_cont c2 \<and> utf8_valid (c3 # r)
     else if b = 237 then 128 \<le> c1 \<and> c1 \<le> 159 \<and> is_cont c2 \<and> utf8_valid (c3 # r)
     else if 225 \<le> b \<and> b \<le> 239 then is_cont c1 \<and> is_cont c2 \<and> utf8_valid (c3 # r)
     else if b = 240 then 144 \<le> c1 \<and> c1 \<le> 191 \<and> is_cont c2 \<and> is_cont c3 \<and> utf8_valid r
     else if b = 244 then 128 \<le> c1 \<and> c1 \<le> 143 \<and> is_cont c2 \<and> is_cont c3 \<and> utf8_valid r
     else 241 \<le> b \<and> b \<le> 243 \<and> is_cont c1 \<and> is_cont c2 \<and> is_cont c3 \<and> utf8_valid r)"

definition utf8_decode :: "bytes \<Rightarrow> exn + pystr" where
  "utf8_decode b =
    (if utf8_valid (map of_char b) then Inr b else Inl UnicodeDecodeError)"

text \<open>\<open>str(b)\<close> for a \<open>bytes\<close> object is its \<open>repr\<close>: \<open>b\<close>, a quote, the octets with
  the quote, the backslash, tab, newline, carriage return and every octet outside
  printable ASCII escaped, and the quote again. The quote is the double quote when the
  octets hold a single quote and no double quote, the single quote otherwise.\<close>

definition hex_digit :: "nat \<Rightarrow> char" where
  "hex_digit n = ''0123456789abcdef'' ! (n mod 16)"

definition escape_byte :: "char \<Rightarrow> char \<Rightarrow> pystr" where
  "escape_byte quote c =
    (let n = (of_char c :: nat) in
     if c = quote \<or> c = CHR 0x5C then [CHR 0x5C, c]
     else if c = CHR 0x09 then [CHR 0x5C, CHR ''t'']
     else if c = CHR 0x0A then [CHR 0x5C, CHR ''n'']
     else if c = CHR 0x0D then [CHR 0x5C, CHR ''r'']
     else if n < 32 \<or> 127 \<le> n then [CHR 0x5C, CHR ''x'', hex_digit (n div 16), hex_digit n]
     else [c])"

definition py_str_bytes :: "bytes \<Rightarrow> pystr" where
  "py_str_bytes b =
    (let quote = (if CHR 0x27 \<in> set b \<and> CHR 0x22 \<notin> set b then CHR 0x22 else CHR 0x27)
     in CHR ''b'' # quote # concat (map (escape_byte quote) b) @ [quote])"

text \<open>Octets that \<open>str\<close> shows as they are: printable ASCII other than the two quotes
  and the backslash.\<close>

definition plain_ascii :: "bytes \<Rightarrow> bool" where
  "plain_ascii v =
    list_all (\<lambda>c. 32 \<le> (of_char c :: nat) \<and> (of_char c :: nat) < 127
                 \<and> c \<noteq> CHR 0x27 \<and> c \<noteq> CHR 0x22 \<and> c \<noteq> CHR 0x5C) v"

section \<open>The directory server and the resolver, as the collector sees them\<close>

type_synonym entry = "pystr \<times> (pystr \<rightharpoonup> bytes list)"

text \<open>What \<open>simple_bind_s\<close>, \<open>search_s\<close> and the DNS resolver can do: return, or raise
  one of the exceptions the program names, or raise another one.\<close>

datatype bind_raw =
  Bound | BIND_SERVER_DOWN | BIND_NO_SUCH_OBJECT | BIND_INVALID_CREDENTIALS | BIND_OTHER_ERROR

datatype search_raw =
  Results "entry list" | NO_SUCH_OBJECT | SERVER_DOWN | REFERRAL | OTHER_ERROR

datatype dns_raw = Answers "pystr list" | DNSException

record ldap_env =
  env_bind :: "pystr \<Rightarrow> pystr \<Rightarrow> pystr \<Rightarrow> bind_raw"
  env_search :: "query \<Rightarrow> search_raw"
  env_resolve :: "pystr \<Rightarrow> dns_raw"

text \<open>What \<open>_search\<close> returns: \<open>False\<close> or the list of entries.\<close>

datatype search_result = SFalse | SList "entry list"

text \<open>A method of the server object: it may change the object and returns or raises.\<close>

type_synonym 'a action = "server \<Rightarrow> server \<times> (exn + 'a)"
type_synonym stmt = "server \<Rightarrow> server \<times> exn option"

definition then_return :: "'a action \<Rightarrow> ('a \<Rightarrow> exn + 'b) \<Rightarrow> 'b action" where
  "then_return act f self =
    (case act self of (self', Inl e) \<Rightarrow> (self', Inl e) | (self', Inr v) \<Rightarrow> (self', f v))"

text \<open>\<open>self.x = self.m()\<close>, a statement that cannot raise, \<open>try: st except Exception: h\<close>
  and a block of statements.\<close>

definition assign :: "'a action \<Rightarrow> ('a \<Rightarrow> server \<Rightarrow> server) \<Rightarrow> stmt" where
  "assign act upd self =
    (case act self of (self', Inl e) \<Rightarrow> (self', Some e) | (self', Inr v) \<Rightarrow> (upd v self', None))"

definition simple :: "(server \<Rightarrow> server) \<Rightarrow> stmt" where
  "simple f self = (f self, None)"

definition try_except :: "stmt \<Rightarrow> (server \<Rightarrow> server) \<Rightarrow> stmt" where
  "try_except st handler self =
    (case st self of (self', Some e) \<Rightarrow> (handler self', None) | (self', None) \<Rightarrow> (self', None))"

fun block :: "stmt list \<Rightarrow> stmt" where
  "block [] self = (self, None)"
| "block (st # sts) self =
    (case st self of (self', Some e) \<Rightarrow> (self', Some e) | (self', None) \<Rightarrow> block sts self')"

section \<open>FreeIPAServer\<close>

definition get_conn :: "ldap_env \<Rightarrow> pystr \<Rightarrow> pystr \<Rightarrow> pystr \<Rightarrow> exn + bool" where
  "get_conn env u binddn bindpw =
    (case env_bind env u binddn bindpw of
       Bound \<Rightarrow> Inr True
     | BIND_SERVER_DOWN \<Rightarrow> Inr False
     | BIND_NO_SUCH_OBJECT \<Rightarrow> Inr False
     | BIND_INVALID_CREDENTIALS \<Rightarrow> Inr False
     | BIND_OTHER_ERROR \<Rightarrow> Inl LDAPError)"

text \<open>\<open>_search\<close>. Without a connection nothing is sent. The handler of a referral reads
  \<open>self._fqdn\<close> for its message before it raises.\<close>

definition search :: "ldap_env \<Rightarrow> query \<Rightarrow> search_result action" where
  "search env q self =
    (if \<not> conn self then (self, Inr SFalse)
     else
       (let self' = self\<lparr>searches := searches self @ [q]\<rparr> in
        case env_search env q of
          Results rs \<Rightarrow> (self', Inr (SList rs))
        | NO_SUCH_OBJECT \<Rightarrow> (self', Inr SFalse)
        | SERVER_DOWN \<Rightarrow> (self', Inr SFalse)
        | REFERRAL \<Rightarrow>
            (case fqdn self' of None \<Rightarrow> (self', Inl AttributeError)
             | Some f \<Rightarrow> (self', Inl LDAPReferralError))
        | OTHER_ERROR \<Rightarrow> (self', Inl LDAPError)))"

text \<open>\<open>not results or not isinstance(results, list)\<close>.\<close>

definition no_results :: "search_result \<Rightarrow> bool" where
  "no_results r = (case r of SFalse \<Rightarrow> True | SList es \<Rightarrow> es = [])"

text \<open>\<open>results[0]\<close> behind that test: \<open>None\<close> when the test sends the method to its
  default.\<close>

definition first_entry :: "search_result \<Rightarrow> entry option" where
  "first_entry r =
    (case r of SFalse \<Rightarrow> None | SList es \<Rightarrow> (case es of [] \<Rightarrow> None | e # _ \<Rightarrow> Some e))"

text \<open>\<open>xs[0]\<close>, and \<open>_safe_decode\<close> of one \<open>bytes\<close> value.\<close>

definition first_item :: "'a list \<Rightarrow> exn + 'a" where
  "first_item xs = (case xs of [] \<Rightarrow> Inl IndexError | x # _ \<Rightarrow> Inr x)"

definition safe_decode :: "bytes \<Rightarrow> exn + pystr" where
  "safe_decode v = utf8_decode v"

text \<open>\<open>_safe_decode(attrs.get(key, [default])[0])\<close> with a \<open>str\<close> default.\<close>

definition decode_first_or :: "(pystr \<rightharpoonup> bytes list) \<Rightarrow> pystr \<Rightarrow> pystr \<Rightarrow> exn + pystr" where
  "decode_first_or attrs key dflt =
    (case attrs key of None \<Rightarrow> Inr dflt
     | Some vs \<Rightarrow> (case first_item vs of Inl e \<Rightarrow> Inl e | Inr v \<Rightarrow> safe_decode v))"

text \<open>\<open>_safe_decode(attrs[key][0])\<close> for a key known to be present.\<close>

definition decode_first :: "(pystr \<rightharpoonup> bytes list) \<Rightarrow> pystr \<Rightarrow> exn + pystr" where
  "decode_first attrs key =
    (case attrs key of None \<Rightarrow> Inl KeyError
     | Some vs \<Rightarrow> (case first_item vs of Inl e \<Rightarrow> Inl e | Inr v \<Rightarrow> safe_decode v))"

definition get_fqdn :: "ldap_env \<Rightarrow> pystr action" where
  "get_fqdn env self =
    (if \<not> conn self then (self, Inr ''unknown'')
     else then_return
       (search env \<lparr>q_base = ''cn=config'', q_scope = SCOPE_BASE, q_fltr = ''(objectClass=*)'',
                    q_attrs = Some [''nsslapd-localhost'']\<rparr>)
       (\<lambda>results. case first_entry results of None \<Rightarrow> Inr ''unknown''
          | Some (dn, attrs) \<Rightarrow> decode_first_or attrs ''nsslapd-localhost'' ''unknown'')
       self)"

definition get_context :: "ldap_env \<Rightarrow> pystr action" where
  "get_context env self =
    (if \<not> conn self then (self, Inr ''unknown'')
     else then_return
       (search env \<lparr>q_base = ''cn=config'', q_scope = SCOPE_SUBTREE, q_fltr = ''(objectClass=*)'',
                    q_attrs = Some [''nsslapd-defaultnamingcontext'']\<rparr>)
       (\<lambda>results. case first_entry results of None \<Rightarrow> Inr ''unknown''
          | Some (dn, attrs) \<Rightarrow> decode_first_or attrs ''nsslapd-defaultnamingcontext'' ''unknown'')
       self)"

text \<open>The entry-count collectors: the number of entries returned, 0 when the search
  returned nothing.\<close>

definition count_results :: "search_result \<Rightarrow> int" where
  "count_results results =
    (if no_results results then 0
     else (case results of SFalse \<Rightarrow> 0 | SList es \<Rightarrow> int (length es)))"

definition user_base_of :: "server \<Rightarrow> pystr \<Rightarrow> exn + pystr" where
  "user_base_of self user_base =
    (if user_base = ''active'' then Inr (active_user_base self)
     else if user_base = ''stage'' then Inr (stage_user_base self)
     else if user_base = ''preserved'' then Inr (preserved_user_base self)
     else Inl AttributeError)"

definition count_users :: "ldap_env \<Rightarrow> pystr \<Rightarrow> pystr action" where
  "count_users env user_base self =
    (case user_base_of self user_base of Inl e \<Rightarrow> (self, Inl e)
     | Inr b \<Rightarrow>
        then_return
          (search env \<lparr>q_base = b, q_scope = SCOPE_SUBTREE, q_fltr = ''(objectClass=*)'',
                       q_attrs = Some [''numSubordinates'']\<rparr>)
          (\<lambda>results. case first_entry results of None \<Rightarrow> Inr ''0''
             | Some (dn, attrs) \<Rightarrow> decode_first_or attrs ''numSubordinates'' ''0'')
          self)"

definition count_groups :: "ldap_env \<Rightarrow> int action" where
  "count_groups env self =
    then_return
      (search env \<lparr>q_base = groups_base self, q_scope = SCOPE_SUBTREE,
                   q_fltr = ''(objectClass=ipausergroup)'', q_attrs = None\<rparr>)
      (\<lambda>results. Inr (count_results results)) self"

definition count_hosts :: "ldap_env \<Rightarrow> int action" where
  "count_hosts env self =
    then_return
      (search env \<lparr>q_base = ''cn=computers,cn=accounts,'' @ base_dn self,
                   q_scope = SCOPE_SUBTREE, q_fltr = ''(fqdn=*)'', q_attrs = Some [''dn'']\<rparr>)
      (\<lambda>results. Inr (count_results results)) self"

definition count_services :: "ldap_env \<Rightarrow> int action" where
  "count_services env self =
    then_return
      (search env \<lparr>q_base = ''cn=services,cn=accounts,'' @ base_dn self,
                   q_scope = SCOPE_SUBTREE, q_fltr = ''(krbprincipalname=*)'',
                   q_attrs = Some [''dn'']\<rparr>)
      (\<lambda>results. Inr (count_results results)) self"

definition count_netgroups :: "ldap_env \<Rightarrow> int action" where
  "count_netgroups env self =
    then_return
      (search env \<lparr>q_base = ''cn=ng,cn=alt,'' @ base_dn self, q_scope = SCOPE_ONELEVEL,
                   q_fltr = ''(ipaUniqueID=*)'', q_attrs = Some [''dn'']\<rparr>)
      (\<lambda>results. Inr (count_results results)) self"

definition count_hostgroups :: "ldap_env \<Rightarrow> pystr action" where
  "count_hostgroups env self =
    then_return
      (search env \<lparr>q_base = ''cn=hostgroups,cn=accounts,'' @ base_dn self,
                   q_scope = SCOPE_BASE, q_fltr = ''(objectClass=*)'',
                   q_attrs = Some [''numSubordinates'']\<rparr>)
      (\<lambda>results. case first_entry results of None \<Rightarrow> Inr ''0''
         | Some (dn, attrs) \<Rightarrow> decode_first_or attrs ''numSubordinates'' ''0'')
      self"

definition count_hbac_rules :: "ldap_env \<Rightarrow> int action" where
  "count_hbac_rules env self =
    then_return
      (search env \<lparr>q_base = ''cn=hbac,'' @ base_dn self, q_scope = SCOPE_ONELEVEL,
                   q_fltr = ''(ipaUniqueID=*)'', q_attrs = None\<rparr>)
      (\<lambda>results. Inr (count_results results)) self"

definition count_sudo_rules :: "ldap_env \<Rightarrow> int action" where
  "count_sudo_rules env self =
    then_return
      (search env \<lparr>q_base = ''cn=sudorules,cn=sudo,'' @ base_dn self, q_scope = SCOPE_ONELEVEL,
                   q_fltr = ''(ipaUniqueID=*)'', q_attrs = None\<rparr>)
      (\<lambda>results. Inr (count_results results)) self"

definition count_dns_zones :: "ldap_env \<Rightarrow> int action" where
  "count_dns_zones env self =
    then_return
      (search env \<lparr>q_base = ''cn=dns,'' @ base_dn self, q_scope = SCOPE_ONELEVEL,
                   q_fltr = ''(|(objectClass=idnszone)(objectClass=idnsforwardzone))'',
                   q_attrs = None\<rparr>)
      (\<lambda>results. Inr (count_results results)) self"

definition count_certificates :: "ldap_env \<Rightarrow> int action" where
  "count_certificates env self =
    then_return
      (search env \<lparr>q_base = ''ou=certificateRepository,ou=ca,o=ipaca'',
                   q_scope = SCOPE_ONELEVEL, q_fltr = ''(certStatus=*)'',
                   q_attrs = Some [''subjectName'']\<rparr>)
      (\<lambda>results. Inr (count_results results)) self"

definition count_ldap_conflicts :: "ldap_env \<Rightarrow> int action" where
  "count_ldap_conflicts env self =
    then_return
      (search env \<lparr>q_base = base_dn self, q_scope = SCOPE_SUBTREE,
                   q_fltr = ''(|(nsds5ReplConflict=*)(&(objectclass=ldapsubentry)(nsds5ReplConflict=*)))'',
                   q_attrs = Some [''nsds5ReplConflict'']\<rparr>)
      (\<lambda>results. Inr (count_results results)) self"

text \<open>\<open>_ghost_replicas\<close>: the loop over the sub-values of \<open>nscpentrywsi\<close> on the first
  entry, with the counter \<open>r\<close>.\<close>

definition is_ghost_text :: "pystr \<Rightarrow> bool" where
  "is_ghost_text attr_str =
    (py_contains ''replica '' attr_str \<and> \<not> py_contains ''ldap'' attr_str)"

fun ghost_loop :: "bytes list \<Rightarrow> int \<Rightarrow> int" where
  "ghost_loop [] r = r"
| "ghost_loop (attr # rest) r =
    (let attr_str = py_str_bytes attr in
     if is_ghost_text attr_str then ghost_loop rest (r + 1) else ghost_loop rest r)"

definition ghost_query :: "server \<Rightarrow> query" where
  "ghost_query self =
    \<lparr>q_base = base_dn self, q_scope = SCOPE_SUBTREE,
     q_fltr = ''(&(objectclass=nstombstone)(nsUniqueId=ffffffff-ffffffff-ffffffff-ffffffff))'',
     q_attrs = Some [''nscpentrywsi'']\<rparr>"

definition ghost_replicas :: "ldap_env \<Rightarrow> int action" where
  "ghost_replicas env self =
    then_return (search env (ghost_query self))
      (\<lambda>results. case first_entry results of None \<Rightarrow> Inr 0
         | Some (dn, attrs) \<Rightarrow>
             (case attrs ''nscpentrywsi'' of None \<Rightarrow> Inr 0
              | Some vs \<Rightarrow> Inr (ghost_loop vs 0)))
      self"

text \<open>\<open>_anon_bind\<close>.\<close>

definition anon_bind_query :: query where
  "anon_bind_query =
    \<lparr>q_base = ''cn=config'', q_scope = SCOPE_BASE, q_fltr = ''(objectClass=*)'',
     q_attrs = Some [''nsslapd-allow-anonymous-access'']\<rparr>"

definition anon_bind :: "ldap_env \<Rightarrow> pystr action" where
  "anon_bind env self =
    then_return (search env anon_bind_query)
      (\<lambda>results. case first_entry results of None \<Rightarrow> Inr ''ERROR''
         | Some (dn, attrs) \<Rightarrow>
             if attrs ''nsslapd-allow-anonymous-access'' = None then Inr ''ERROR''
             else (case decode_first attrs ''nsslapd-allow-anonymous-access'' of
                     Inl e \<Rightarrow> Inl e
                   | Inr state \<Rightarrow>
                       if state \<in> set [''on'', ''off'', ''rootdse''] then Inr (py_upper state)
                       else Inr ''ERROR''))
      self"

text \<open>\<open>_ms_adtrust\<close>: every failure of the resolver is a \<open>DNSException\<close> and leaves
  \<open>False\<close>.\<close>

definition ms_adtrust :: "ldap_env \<Rightarrow> bool action" where
  "ms_adtrust env self =
    (let record_name =
           ''_kerberos._tcp.Default-First-Site-Name._sites.dc._msdcs.'' @ domain_name self
     in case env_resolve env record_name of
          DNSException \<Rightarrow> (self, Inr False)
        | Answers answers \<Rightarrow>
            (case fqdn self of None \<Rightarrow> (self, if answers = [] then Inr False else Inl AttributeError)
             | Some f \<Rightarrow> (self, Inr (list_ex (\<lambda>answer. py_contains f answer) answers))))"

text \<open>\<open>_replication_agreements\<close>: the normalisation of one status text, then the loop
  over the entries with its two accumulators \<open>msg\<close> and \<open>healthy\<close>.\<close>

definition normalize_status :: "pystr \<Rightarrow> pystr" where
  "normalize_status status =
    py_strip (py_partition_head (py_replace status ''Error '' '''') CHR '' '') ''()''"

definition has_both :: "(pystr \<rightharpoonup> bytes list) \<Rightarrow> bool" where
  "has_both attrs =
    (attrs ''nsDS5ReplicaHost'' \<noteq> None \<and> attrs ''nsds5replicaLastUpdateStatus'' \<noteq> None)"

fun agreements_loop ::
  "pystr \<Rightarrow> entry list \<Rightarrow> pystr list \<Rightarrow> bool \<Rightarrow> exn + (pystr list \<times> bool)" where
  "agreements_loop domain [] msg healthy = Inr (msg, healthy)"
| "agreements_loop domain ((dn, attrs) # rest) msg healthy =
    (if \<not> has_both attrs then agreements_loop domain rest msg healthy
     else
       (case decode_first attrs ''nsDS5ReplicaHost'' of Inl e \<Rightarrow> Inl e
        | Inr host0 \<Rightarrow>
           (let host = py_replace host0 (''.'' @ domain) '''' in
            case decode_first attrs ''nsds5replicaLastUpdateStatus'' of Inl e \<Rightarrow> Inl e
            | Inr status0 \<Rightarrow>
               (let status = normalize_status status0;
                    healthy' = (if status \<notin> set [''0'', ''18''] then False else healthy)
                in agreements_loop domain rest (msg @ [host @ '' '' @ status]) healthy'))))"

definition agreements_query :: "server \<Rightarrow> query" where
  "agreements_query self =
    (let suffix = py_replace (py_replace (base_dn self) ''='' (CHR 0x5C # ''3D''))
                    '','' (CHR 0x5C # ''2C'')
     in \<lparr>q_base = ''cn=replica,cn='' @ suffix @ '',cn=mapping tree,cn=config'',
         q_scope = SCOPE_ONELEVEL, q_fltr = ''(objectClass=*)'',
         q_attrs = Some [''nsDS5ReplicaHost'', ''nsds5replicaLastUpdateStatus'']\<rparr>)"

definition replication_agreements :: "ldap_env \<Rightarrow> (pystr \<times> bool) action" where
  "replication_agreements env self =
    then_return (search env (agreements_query self))
      (\<lambda>results.
         if no_results results then Inr (''No replication agreements found'', False)
         else
           (case results of SFalse \<Rightarrow> Inr (''No replication agreements found'', False)
            | SList es \<Rightarrow>
               (case agreements_loop (domain_name self) es [] True of Inl e \<Rightarrow> Inl e
                | Inr (msg, healthy) \<Rightarrow>
                    Inr (if msg \<noteq> [] then py_join [CHR 0x0A] msg
                         else ''No replication agreements found'', healthy))))
      self"

text \<open>An entry whose two attributes can be read (a first value, well-formed UTF-8), and
  an entry whose normalised status passes the test of the loop.\<close>

definition agreement_readable :: "entry \<Rightarrow> bool" where
  "agreement_readable e =
    (case decode_first (snd e) ''nsDS5ReplicaHost'' of Inl x \<Rightarrow> False
     | Inr h \<Rightarrow>
        (case decode_first (snd e) ''nsds5replicaLastUpdateStatus'' of Inl x \<Rightarrow> False
         | Inr s \<Rightarrow> True))"

definition agreement_healthy :: "entry \<Rightarrow> bool" where
  "agreement_healthy e =
    (case decode_first (snd e) ''nsds5replicaLastUpdateStatus'' of Inl x \<Rightarrow> False
     | Inr s \<Rightarrow> normalize_status s \<in> set [''0'', ''18''])"

text \<open>The attribute values the constructor sets before it connects.\<close>

definition initial_attrs :: "pystr \<Rightarrow> pystr \<Rightarrow> server" where
  "initial_attrs host domain =
    \<lparr>conn = False, domain_name = domain, url = ''ldaps://'' @ host,
     hostname_short = py_replace host (''.'' @ domain) '''',
     fqdn = None, base_dn = '''', active_user_base = '''', stage_user_base = '''',
     preserved_user_base = '''', groups_base = '''',
     users = None, susers = None, pusers = None, hosts = None, services = None,
     ugroups = None, hgroups = None, ngroups = None, hbac = Some 0, sudo = None,
     zones = None, certs = None, conflicts = None, ghosts = None, bind = None,
     msdcs = None, replicas = None, healthy_agreements = False, searches = []\<rparr>"

text \<open>The body of the constructor's outer \<open>try\<close>, statement by statement. A
  context that differs from the base DN raises \<open>ValueError\<close>. Only the HBAC and the
  sudo statements have a \<open>try\<close> of their own.\<close>

definition check_context :: "ldap_env \<Rightarrow> stmt" where
  "check_context env self =
    (case get_context env self of
       (self', Inl e) \<Rightarrow> (self', Some e)
     | (self', Inr ctx) \<Rightarrow>
         if base_dn self' \<noteq> ctx then (self', Some ValueError) else (self', None))"

definition collect_statements :: "ldap_env \<Rightarrow> pystr \<Rightarrow> stmt list" where
  "collect_statements env domain =
    [assign (get_fqdn env)
       (\<lambda>v s. s\<lparr>fqdn := Some v, hostname_short := py_replace v (''.'' @ domain) ''''\<rparr>),
     simple (\<lambda>s. s\<lparr>base_dn := ''dc='' @ py_replace (domain_name s) ''.'' '',dc=''\<rparr>),
     check_context env,
     simple (\<lambda>s. s\<lparr>active_user_base := ''cn=users,cn=accounts,'' @ base_dn s,
                   stage_user_base := ''cn=staged users,cn=accounts,cn=provisioning,'' @ base_dn s,
                   preserved_user_base :=
                     ''cn=deleted users,cn=accounts,cn=provisioning,'' @ base_dn s,
                   groups_base := ''cn=groups,cn=accounts,'' @ base_dn s\<rparr>),
     assign (count_users env ''active'') (\<lambda>v s. s\<lparr>users := Some v\<rparr>),
     assign (count_users env ''stage'') (\<lambda>v s. s\<lparr>susers := Some v\<rparr>),
     assign (count_users env ''preserved'') (\<lambda>v s. s\<lparr>pusers := Some v\<rparr>),
     assign (count_hosts env) (\<lambda>v s. s\<lparr>hosts := Some v\<rparr>),
     assign (count_services env) (\<lambda>v s. s\<lparr>services := Some v\<rparr>),
     assign (count_groups env) (\<lambda>v s. s\<lparr>ugroups := Some v\<rparr>),
     assign (count_hostgroups env) (\<lambda>v s. s\<lparr>hgroups := Some v\<rparr>),
     assign (count_netgroups env) (\<lambda>v s. s\<lparr>ngroups := Some v\<rparr>),
     try_except (assign (count_hbac_rules env) (\<lambda>v s. s\<lparr>hbac := Some v\<rparr>))
       (\<lambda>s. s\<lparr>hbac := Some 0\<rparr>),
     try_except (assign (count_sudo_rules env) (\<lambda>v s. s\<lparr>sudo := Some v\<rparr>))
       (\<lambda>s. s\<lparr>sudo := Some 0\<rparr>),
     assign (count_dns_zones env) (\<lambda>v s. s\<lparr>zones := Some v\<rparr>),
     assign (count_certificates env) (\<lambda>v s. s\<lparr>certs := Some v\<rparr>),
     assign (count_ldap_conflicts env) (\<lambda>v s. s\<lparr>conflicts := Some v\<rparr>),
     assign (ghost_replicas env) (\<lambda>v s. s\<lparr>ghosts := Some v\<rparr>),
     assign (anon_bind env) (\<lambda>v s. s\<lparr>bind := Some v\<rparr>),
     assign (ms_adtrust env) (\<lambda>v s. s\<lparr>msdcs := Some v\<rparr>),
     assign (replication_agreements env)
       (\<lambda>v s. s\<lparr>replicas := Some (fst v), healthy_agreements := snd v\<rparr>)]"

text \<open>\<open>FreeIPAServer.__init__\<close>: the object it leaves, or the exception that escapes
  \<open>_get_conn\<close>. The outer handler only logs.\<close>

definition FreeIPAServer_init ::
  "ldap_env \<Rightarrow> pystr \<Rightarrow> pystr \<Rightarrow> pystr \<Rightarrow> pystr \<Rightarrow> exn + server" where
  "FreeIPAServer_init env host domain binddn bindpw =
    (let self0 = initial_attrs host domain in
     case get_conn env (url self0) binddn bindpw of
       Inl e \<Rightarrow> Inl e
     | Inr c \<Rightarrow>
         (let self1 = self0\<lparr>conn := c\<rparr> in
          if \<not> conn self1 then Inr self1
          else Inr (fst (try_except (block (collect_statements env domain)) (\<lambda>s. s) self1))))"


section \<open>Server objects for examples\<close>

text \<open>A server object as the tests build it: the constructor's initial attributes with
  the conflict count, the ghost count, the replication text and the health flag set.\<close>

definition server_with :: "int \<Rightarrow> int \<Rightarrow> pystr \<Rightarrow> bool \<Rightarrow> server" where
  "server_with c g r h =
    (initial_attrs ''ipa.example.com'' ''example.com'')
      \<lparr>conflicts := Some c, ghosts := Some g, replicas := Some r, healthy_agreements := h\<rparr>"

text \<open>A server object after a successful bind and identity check, and a directory that
  accepts the bind and answers searches by the given function.\<close>

definition bound_server :: server where
  "bound_server =
    (initial_attrs ''ipa01.example.com'' ''example.com'')
      \<lparr>conn := True, hostname_short := ''ipa01'', fqdn := Some ''ipa01.example.com'',
       base_dn := ''dc=example,dc=com''\<rparr>"

definition env_of :: "(query \<Rightarrow> search_raw) \<Rightarrow> ldap_env" where
  "env_of f = \<lparr>env_bind = (\<lambda>u d p. Bound), env_search = f, env_resolve = (\<lambda>n. DNSException)\<rparr>"

text \<open>A small directory for the domain \<open>example.com\<close>: one active user container
  with 250 subordinates, three hosts, two HBAC rules, one sudo rule, anonymous access
  \<open>on\<close>, nothing else. A search whose base is \<open>redirected\<close> is answered with a
  referral.\<close>

definition example_directory :: "pystr option \<Rightarrow> query \<Rightarrow> search_raw" where
  "example_directory redirected q =
    (if Some (q_base q) = redirected then REFERRAL
     else if q_base q = ''cn=config'' then
       Results [(''cn=config'',
                 [''nsslapd-localhost'' \<mapsto> [''ipa01.example.com''],
                  ''nsslapd-defaultnamingcontext'' \<mapsto> [''dc=example,dc=com''],
                  ''nsslapd-allow-anonymous-access'' \<mapsto> [''on'']])]
     else if q_base q = ''cn=users,cn=accounts,dc=example,dc=com'' then
       Results [(''cn=users,cn=accounts,dc=example,dc=com'', [''numSubordinates'' \<mapsto> [''250'']])]
     else if q_base q = ''cn=computers,cn=accounts,dc=example,dc=com'' then
       Results [(''fqdn=a'', Map.empty), (''fqdn=b'', Map.empty), (''fqdn=c'', Map.empty)]
     else if q_base q = ''cn=hbac,dc=example,dc=com'' then
       Results [(''ipaUniqueID=1'', Map.empty), (''ipaUniqueID=2'', Map.empty)]
     else if q_base q = ''cn=sudorules,cn=sudo,dc=example,dc=com'' then
       Results [(''ipaUniqueID=3'', Map.empty)]
     else Results [])"

text \<open>The sample data of the test suite, with the conflict count left open.\<close>

definition sample_server :: "int \<Rightarrow> server" where
  "sample_server c =
    (initial_attrs ''ipa01.example.com'' ''example.com'')
      \<lparr>users := Some ''1234'', susers := Some ''12'', pusers := Some ''5'', hosts := Some 42,
       services := Some 56, ugroups := Some 98, hgroups := Some ''23'', ngroups := Some 7,
       hbac := Some 15, sudo := Some 12, zones := Some 3, certs := Some 42,
       conflicts := Some c, ghosts := Some 0, bind := Some ''OFF'', msdcs := Some False,
       replicas := Some ''server1 0'', healthy_agreements := True\<rparr>"

text \<open>A check passes when the verdict on its values is \<open>True\<close>.\<close>

definition passed :: "servers \<Rightarrow> pystr \<Rightarrow> bool" where
  "passed svs c = (check_verdict svs c = Inr True)"

section \<open>Facts about the checker\<close>

lemma count_list_full: "count_list xs x = length xs \<longleftrightarrow> (\<forall>y\<in>set xs. y = x)"
proof (induction xs)
  case Nil
  then show ?case by simp
next
  case (Cons a xs)
  have "count_list xs x \<le> length xs" by (rule count_le_length)
  with Cons show ?case by auto
qed

lemma py_eq_refl: "py_eq v v"
  by (cases v) simp_all

lemma py_eq_sym: "py_eq v w \<Longrightarrow> py_eq w v"
  by (cases v; cases w) (auto split: if_splits)

lemma py_eq_trans: "py_eq u v \<Longrightarrow> py_eq v w \<Longrightarrow> py_eq u w"
  by (cases u; cases v; cases w) (auto split: if_splits)

lemma py_eq_None: "py_eq v PNone \<longleftrightarrow> v = PNone"
  by (cases v) simp_all

lemma filter_full: "length (filter P xs) = length xs \<longleftrightarrow> (\<forall>y\<in>set xs. P y)"
proof
  assume L: "length (filter P xs) = length xs"
  show "\<forall>y\<in>set xs. P y"
  proof (rule ccontr)
    assume "\<not> (\<forall>y\<in>set xs. P y)"
    then obtain y where "y \<in> set xs" "\<not> P y" by blast
    then have "length (filter P xs) < length xs" by (rule length_filter_less)
    with L show False by simp
  qed
next
  assume "\<forall>y\<in>set xs. P y"
  then have "filter P xs = xs" by (simp add: filter_id_conv)
  then show "length (filter P xs) = length xs" by simp
qed

lemma py_count_full: "py_count xs x = length xs \<longleftrightarrow> (\<forall>y\<in>set xs. py_eq y x)"
  by (simp add: py_count_def filter_full)

lemma py_in_None: "py_in PNone xs \<longleftrightarrow> PNone \<in> set xs"
  by (auto simp: py_in_def list_ex_iff py_eq_None)

lemma all_same_and:
  "xs \<noteq> [] \<Longrightarrow>
   (case xs of [] \<Rightarrow> Inl e | x0 # _ \<Rightarrow> Inr (count_list xs x0 = length xs \<and> x0 = c))
     = Inr (\<forall>x\<in>set xs. x = c)"
  by (cases xs) (auto simp: count_list_full)

lemma all_same_true:
  "xs \<noteq> [] \<Longrightarrow>
   (case xs of [] \<Rightarrow> Inl e | x0 # _ \<Rightarrow> Inr (count_list xs x0 = length xs \<and> x0))
     = Inr (\<forall>x\<in>set xs. x)"
  by (cases xs) (auto simp: count_list_full)

lemma is_consistent_conflicts:
  assumes "svs \<noteq> []" and "rs \<noteq> []"
  shows "is_consistent svs ''conflicts'' rs = Inr (\<forall>s\<in>set (map snd svs). conflicts s = Some 0)"
proof -
  let ?cs = "map (\<lambda>(h, s). conflicts s) svs"
  have ne: "?cs \<noteq> []" using assms(1) by simp
  have "is_consistent svs ''conflicts'' rs =
      (case ?cs of [] \<Rightarrow> Inl IndexError | c0 # _ \<Rightarrow> Inr (count_list ?cs c0 = length ?cs \<and> c0 = Some 0))"
    using assms(2) by (simp add: is_consistent_def Let_def)
  also have "\<dots> = Inr (\<forall>x\<in>set ?cs. x = Some 0)"
    by (rule all_same_and[OF ne])
  also have "(\<forall>x\<in>set ?cs. x = Some 0) = (\<forall>s\<in>set (map snd svs). conflicts s = Some 0)"
    by (auto simp: case_prod_beta)
  finally show ?thesis .
qed


lemma is_consistent_ghosts:
  assumes "svs \<noteq> []" and "rs \<noteq> []"
  shows "is_consistent svs ''ghosts'' rs = Inr (\<forall>s\<in>set (map snd svs). ghosts s = Some 0)"
proof -
  let ?gs = "map (\<lambda>(h, s). ghosts s) svs"
  have ne: "?gs \<noteq> []" using assms(1) by simp
  have "is_consistent svs ''ghosts'' rs =
      (case ?gs of [] \<Rightarrow> Inl IndexError | g0 # _ \<Rightarrow> Inr (count_list ?gs g0 = length ?gs \<and> g0 = Some 0))"
    using assms(2) by (simp add: is_consistent_def Let_def)
  also have "\<dots> = Inr (\<forall>x\<in>set ?gs. x = Some 0)"
    by (rule all_same_and[OF ne])
  also have "(\<forall>x\<in>set ?gs. x = Some 0) = (\<forall>s\<in>set (map snd svs). ghosts s = Some 0)"
    by (auto simp: case_prod_beta)
  finally show ?thesis .
qed

lemma is_consistent_healths:
  assumes "svs \<noteq> []" and "rs \<noteq> []"
  shows "is_consistent svs ''replicas'' rs = Inr (\<forall>s\<in>set (map snd svs). healthy_agreements s)"
proof -
  let ?hs = "map (\<lambda>(h, s). healthy_agreements s) svs"
  have ne: "?hs \<noteq> []" using assms(1) by simp
  have "is_consistent svs ''replicas'' rs =
      (case ?hs of [] \<Rightarrow> Inl IndexError | h0 # _ \<Rightarrow> Inr (count_list ?hs h0 = length ?hs \<and> h0))"
    using assms(2) by (simp add: is_consistent_def Let_def)
  also have "\<dots> = Inr (\<forall>x\<in>set ?hs. x)"
    by (rule all_same_true[OF ne])
  also have "(\<forall>x\<in>set ?hs. x) = (\<forall>s\<in>set (map snd svs). healthy_agreements s)"
    by (auto simp: case_prod_beta)
  finally show ?thesis .
qed

lemma is_consistent_default:
  assumes "check \<noteq> ''conflicts''" "check \<noteq> ''ghosts''" "check \<noteq> ''replicas''"
  shows "is_consistent svs check rs =
     Inr (rs \<noteq> [] \<and> (\<forall>v\<in>set rs. \<forall>w\<in>set rs. py_eq v w) \<and> PNone \<notin> set rs)"
proof (cases rs)
  case Nil
  then show ?thesis by (simp add: is_consistent_def)
next
  case (Cons r0 rest)
  have ne: "rs \<noteq> []" using Cons by simp
  have 1: "is_consistent svs check rs =
      Inr (py_count rs r0 = length rs \<and> \<not> py_in PNone rs)"
    using assms Cons by (simp add: is_consistent_def)
  have 2: "(\<forall>y\<in>set rs. py_eq y r0) = (\<forall>v\<in>set rs. \<forall>w\<in>set rs. py_eq v w)"
  proof
    assume a: "\<forall>y\<in>set rs. py_eq y r0"
    show "\<forall>v\<in>set rs. \<forall>w\<in>set rs. py_eq v w"
    proof (intro ballI)
      fix v w assume "v \<in> set rs" "w \<in> set rs"
      with a have "py_eq v r0" "py_eq w r0" by auto
      then show "py_eq v w" using py_eq_sym py_eq_trans by blast
    qed
  next
    assume "\<forall>v\<in>set rs. \<forall>w\<in>set rs. py_eq v w"
    then show "\<forall>y\<in>set rs. py_eq y r0" using Cons by simp
  qed
  from 1 have "is_consistent svs check rs =
      Inr ((\<forall>v\<in>set rs. \<forall>w\<in>set rs. py_eq v w) \<and> PNone \<notin> set rs)"
    by (simp only: py_count_full 2 py_in_None)
  with ne show ?thesis by simp
qed

lemma collect_map:
  "(\<forall>x\<in>set xs. f x = Inr (g x)) \<Longrightarrow> collect f xs = Inr (map g xs)"
  by (induction xs) simp_all

lemma getattr_known:
  "c \<in> set (map fst checks) \<Longrightarrow> \<exists>v. getattr s c = Inr v"
  by (auto simp: checks_def getattr_def)

section \<open>The claims about the checker\<close>

lemma of_int_opt_zero: "of_int_opt v = PInt 0 \<longleftrightarrow> v = Some 0"
  by (cases v) (simp_all add: of_int_opt_def)

text \<open>
  Claim C1. For the checks \<open>conflicts\<close> and \<open>ghosts\<close>, and a checker with at least one
  server asked about a non-empty list of results (as its callers do), \<open>is_consistent\<close>
  returns true exactly when the attribute of every server is the integer 0: equal
  non-zero counts are inconsistent.
\<close>

theorem conflicts_ghosts_consistent_iff_all_zero:
  assumes "svs \<noteq> []" and "check_results \<noteq> []"
    and "check = ''conflicts'' \<or> check = ''ghosts''"
  shows "is_consistent svs check check_results =
           Inr (\<forall>s\<in>set (map snd svs). getattr s check = Inr (PInt 0))"
proof -
  from assms(3) show ?thesis
  proof
    assume c: "check = ''conflicts''"
    have "getattr s check = Inr (PInt 0) \<longleftrightarrow> conflicts s = Some 0" for s
      unfolding c by (simp add: getattr_def of_int_opt_zero)
    then show ?thesis
      using is_consistent_conflicts[OF assms(1,2)] unfolding c by simp
  next
    assume c: "check = ''ghosts''"
    have "getattr s check = Inr (PInt 0) \<longleftrightarrow> ghosts s = Some 0" for s
      unfolding c by (simp add: getattr_def of_int_opt_zero)
    then show ?thesis
      using is_consistent_ghosts[OF assms(1,2)] unfolding c by simp
  qed
qed

theorem conflicts_ghosts_witness:
  "is_consistent [(''a'', server_with 0 0 ''x'' True), (''b'', server_with 0 0 ''x'' True),
                  (''c'', server_with 0 0 ''x'' True)] ''conflicts'' [PInt 0, PInt 0, PInt 0] = Inr True
   \<and> is_consistent [(''a'', server_with 0 0 ''x'' True), (''b'', server_with 2 0 ''x'' True),
                  (''c'', server_with 0 0 ''x'' True)] ''conflicts'' [PInt 0, PInt 2, PInt 0] = Inr False
   \<and> is_consistent [(''a'', server_with 0 3 ''x'' True), (''b'', server_with 0 3 ''x'' True),
                  (''c'', server_with 0 3 ''x'' True)] ''ghosts'' [PInt 3, PInt 3, PInt 3] = Inr False"
  using conflicts_ghosts_consistent_iff_all_zero
          [of "[(''a'', server_with 0 0 ''x'' True), (''b'', server_with 0 0 ''x'' True),
                (''c'', server_with 0 0 ''x'' True)]" "[PInt 0, PInt 0, PInt 0]" "''conflicts''"]
        conflicts_ghosts_consistent_iff_all_zero
          [of "[(''a'', server_with 0 0 ''x'' True), (''b'', server_with 2 0 ''x'' True),
                (''c'', server_with 0 0 ''x'' True)]" "[PInt 0, PInt 2, PInt 0]" "''conflicts''"]
        conflicts_ghosts_consistent_iff_all_zero
          [of "[(''a'', server_with 0 3 ''x'' True), (''b'', server_with 0 3 ''x'' True),
                (''c'', server_with 0 3 ''x'' True)]" "[PInt 3, PInt 3, PInt 3]" "''ghosts''"]
  by (simp add: getattr_def of_int_opt_def server_with_def initial_attrs_def)

lemma py_eq_of_str: "py_eq (of_str_opt a) (of_str_opt b) \<longleftrightarrow> a = b"
  by (cases a; cases b) (simp_all add: of_str_opt_def)

lemma py_eq_of_int_opt: "py_eq (of_int_opt a) (of_int_opt b) \<longleftrightarrow> a = b"
  by (cases a; cases b) (simp_all add: of_int_opt_def)

lemma py_eq_of_bool: "py_eq (of_bool_opt a) (of_bool_opt b) \<longleftrightarrow> a = b"
  by (cases a; cases b) (simp_all add: of_bool_opt_def)

lemma of_str_None: "of_str_opt a = PNone \<longleftrightarrow> a = None"
  by (cases a) (simp_all add: of_str_opt_def)

lemma of_int_opt_None: "of_int_opt a = PNone \<longleftrightarrow> a = None"
  by (cases a) (simp_all add: of_int_opt_def)

lemma of_bool_None: "of_bool_opt a = PNone \<longleftrightarrow> a = None"
  by (cases a) (simp_all add: of_bool_opt_def)

lemma is_consistent_typed:
  assumes "check \<noteq> ''conflicts''" "check \<noteq> ''ghosts''" "check \<noteq> ''replicas''"
    and eq: "\<And>a b. py_eq (f a) (f b) \<longleftrightarrow> a = b"
    and none: "\<And>a. f a = PNone \<longleftrightarrow> a = None"
  shows "is_consistent svs check (map f xs) =
     Inr (xs \<noteq> [] \<and> (\<forall>a\<in>set xs. \<forall>b\<in>set xs. a = b) \<and> None \<notin> set xs)"
proof -
  have a: "(PNone \<in> set (map f xs)) = (None \<in> set xs)"
    by (induction xs) (auto simp: none eq_commute[of PNone])
  have b: "(\<forall>v\<in>set (map f xs). \<forall>w\<in>set (map f xs). py_eq v w) = (\<forall>a\<in>set xs. \<forall>b\<in>set xs. a = b)"
    by (simp add: eq)
  have c: "(map f xs \<noteq> []) = (xs \<noteq> [])"
    by simp
  show ?thesis
    by (simp only: is_consistent_default[OF assms(1,2,3)] a b c)
qed

text \<open>
  Claim C2. For every check other than \<open>conflicts\<close>, \<open>ghosts\<close> and \<open>replicas\<close>,
  \<open>is_consistent\<close> returns true exactly when the list of values is not empty, all its
  values are equal and none is \<open>None\<close>. Equality is Python's \<open>==\<close>; on the values of
  one attribute (all \<open>str\<close> or \<open>None\<close>, all \<open>int\<close> or \<open>None\<close>, all \<open>bool\<close> or
  \<open>None\<close>) it is identity. A list of \<open>n \<ge> 1\<close> copies of a value other than \<open>None\<close>
  is consistent and the empty list is not.
\<close>

theorem default_rule_consistent_iff:
  assumes "check \<notin> {''conflicts'', ''ghosts'', ''replicas''}"
  shows "is_consistent svs check rs =
           Inr (rs \<noteq> [] \<and> (\<forall>v\<in>set rs. \<forall>w\<in>set rs. py_eq v w) \<and> PNone \<notin> set rs)
       \<and> is_consistent svs check (map of_str_opt ss) =
           Inr (ss \<noteq> [] \<and> (\<forall>a\<in>set ss. \<forall>b\<in>set ss. a = b) \<and> None \<notin> set ss)
       \<and> is_consistent svs check (map of_int_opt ns) =
           Inr (ns \<noteq> [] \<and> (\<forall>a\<in>set ns. \<forall>b\<in>set ns. a = b) \<and> None \<notin> set ns)
       \<and> is_consistent svs check (map of_bool_opt bs) =
           Inr (bs \<noteq> [] \<and> (\<forall>a\<in>set bs. \<forall>b\<in>set bs. a = b) \<and> None \<notin> set bs)
       \<and> (x \<noteq> PNone \<and> 0 < n \<longrightarrow> is_consistent svs check (replicate n x) = Inr True)
       \<and> is_consistent svs check [] = Inr False"
proof -
  from assms have c: "check \<noteq> ''conflicts''" "check \<noteq> ''ghosts''" "check \<noteq> ''replicas''"
    by auto
  note d = is_consistent_default[OF c]
  have 1: "is_consistent svs check rs =
           Inr (rs \<noteq> [] \<and> (\<forall>v\<in>set rs. \<forall>w\<in>set rs. py_eq v w) \<and> PNone \<notin> set rs)"
    by (rule d)
  have 2: "is_consistent svs check (map of_str_opt ss) =
           Inr (ss \<noteq> [] \<and> (\<forall>a\<in>set ss. \<forall>b\<in>set ss. a = b) \<and> None \<notin> set ss)"
    by (rule is_consistent_typed[OF c py_eq_of_str of_str_None])
  have 3: "is_consistent svs check (map of_int_opt ns) =
           Inr (ns \<noteq> [] \<and> (\<forall>a\<in>set ns. \<forall>b\<in>set ns. a = b) \<and> None \<notin> set ns)"
    by (rule is_consistent_typed[OF c py_eq_of_int_opt of_int_opt_None])
  have 4: "is_consistent svs check (map of_bool_opt bs) =
           Inr (bs \<noteq> [] \<and> (\<forall>a\<in>set bs. \<forall>b\<in>set bs. a = b) \<and> None \<notin> set bs)"
    by (rule is_consistent_typed[OF c py_eq_of_bool of_bool_None])
  have 5: "x \<noteq> PNone \<and> 0 < n \<longrightarrow> is_consistent svs check (replicate n x) = Inr True"
    unfolding d by (auto simp: py_eq_refl)
  have 6: "is_consistent svs check [] = Inr False"
    unfolding d by simp
  show ?thesis
    by (intro conjI) (rule 1, rule 2, rule 3, rule 4, rule 5, rule 6)
qed

theorem default_rule_witness:
  "is_consistent [] ''users'' [PStr ''250'', PStr ''250'', PStr ''250''] = Inr True
   \<and> is_consistent [] ''users'' [PStr ''250'', PStr ''251''] = Inr False
   \<and> is_consistent [] ''hosts'' [PInt 3, PNone] = Inr False
   \<and> is_consistent [] ''hosts'' [PNone, PNone] = Inr False
   \<and> is_consistent [] ''hosts'' [PInt 0, PStr ''0''] = Inr False
   \<and> is_consistent [] ''msdcs'' (replicate 4 (PBool False)) = Inr True
   \<and> is_consistent [] ''users'' [] = Inr False"
  using default_rule_consistent_iff[THEN conjunct1, of "''users''" "[]" "[PStr ''250'', PStr ''250'', PStr ''250'']"]
        default_rule_consistent_iff[THEN conjunct1, of "''users''" "[]" "[PStr ''250'', PStr ''251'']"]
        default_rule_consistent_iff[THEN conjunct1, of "''hosts''" "[]" "[PInt 3, PNone]"]
        default_rule_consistent_iff[THEN conjunct1, of "''hosts''" "[]" "[PNone, PNone]"]
        default_rule_consistent_iff[THEN conjunct1, of "''hosts''" "[]" "[PInt 0, PStr ''0'']"]
        default_rule_consistent_iff[THEN conjunct2, THEN conjunct2, THEN conjunct2, THEN conjunct2,
          THEN conjunct1, of "''msdcs''" "PBool False" 4 "[]"]
        default_rule_consistent_iff[THEN conjunct1, of "''users''" "[]" "[]"]
  by simp

text \<open>
  Claim C3. For the check \<open>replicas\<close>, with at least one server and a non-empty list of
  results, \<open>is_consistent\<close> is true exactly when \<open>healthy_agreements\<close> holds of every
  server; neither the list of results nor the status text is read.
\<close>

theorem replicas_consistent_iff_all_healthy:
  assumes "svs \<noteq> []" and "check_results \<noteq> []"
  shows "is_consistent svs ''replicas'' check_results =
           Inr (\<forall>s\<in>set (map snd svs). healthy_agreements s)"
  by (rule is_consistent_healths[OF assms])

theorem replicas_witness:
  "is_consistent [(''a'', server_with 0 0 ''ipa2 0'' True), (''b'', server_with 0 0 ''ipa1 18'' True)]
      ''replicas'' [PStr ''ipa2 0'', PStr ''ipa1 18''] = Inr True
   \<and> is_consistent [(''a'', server_with 0 0 ''ipa2 0'' True), (''b'', server_with 0 0 ''ipa2 0'' False)]
      ''replicas'' [PStr ''ipa2 0'', PStr ''ipa2 0''] = Inr False"
  using replicas_consistent_iff_all_healthy
          [of "[(''a'', server_with 0 0 ''ipa2 0'' True), (''b'', server_with 0 0 ''ipa1 18'' True)]"
              "[PStr ''ipa2 0'', PStr ''ipa1 18'']"]
        replicas_consistent_iff_all_healthy
          [of "[(''a'', server_with 0 0 ''ipa2 0'' True), (''b'', server_with 0 0 ''ipa2 0'' False)]"
              "[PStr ''ipa2 0'', PStr ''ipa2 0'']"]
  by (simp add: server_with_def initial_attrs_def)

lemma collect_total:
  "(\<And>x. x \<in> set xs \<Longrightarrow> \<exists>v. f x = Inr v) \<Longrightarrow> \<exists>vs. collect f xs = Inr vs"
proof (induction xs)
  case Nil
  then show ?case by simp
next
  case (Cons a xs)
  from Cons.prems obtain v where v: "f a = Inr v" by auto
  from Cons obtain vs where vs: "collect f xs = Inr vs" by auto
  show ?case by (simp add: v vs)
qed

lemma check_results_total:
  assumes "c \<in> set (map fst checks)"
  shows "\<exists>rs. check_results_of svs c = Inr rs"
  unfolding check_results_of_def
proof (rule collect_total)
  fix x assume "x \<in> set svs"
  from getattr_known[OF assms, of "snd x"]
  show "\<exists>v. (case x of (h, s) \<Rightarrow> getattr s c) = Inr v"
    by (simp add: case_prod_beta)
qed

lemma is_consistent_total:
  assumes "svs \<noteq> []"
  shows "\<exists>b. is_consistent svs c rs = Inr b"
proof (cases "rs = []")
  case True
  then have "is_consistent svs c rs = Inr False" by (simp add: is_consistent_def)
  then show ?thesis by blast
next
  case False
  consider "c = ''conflicts''" | "c = ''ghosts''" | "c = ''replicas''"
    | "c \<noteq> ''conflicts''" "c \<noteq> ''ghosts''" "c \<noteq> ''replicas''"
    by blast
  then show ?thesis
  proof cases
    case 1
    then show ?thesis using is_consistent_conflicts[OF assms False] by simp
  next
    case 2
    then show ?thesis using is_consistent_ghosts[OF assms False] by simp
  next
    case 3
    then show ?thesis using is_consistent_healths[OF assms False] by simp
  next
    case 4
    then show ?thesis using is_consistent_default[OF 4] by simp
  qed
qed

lemma check_verdict_total:
  assumes "svs \<noteq> []" and "c \<in> set (map fst checks)"
  shows "\<exists>b. check_verdict svs c = Inr b"
proof -
  from check_results_total[OF assms(2)] obtain rs where "check_results_of svs c = Inr rs"
    by blast
  then show ?thesis
    using is_consistent_total[OF assms(1), of c rs] by (simp add: check_verdict_def)
qed

lemma checks_loop_counts:
  assumes "svs \<noteq> []" and "set (map fst cs) \<subseteq> set (map fst checks)"
  shows "\<exists>d'. checks_loop svs cs d = Inr d'
     \<and> total_checks (sd_summary d') = total_checks (sd_summary d)
     \<and> consistent_checks (sd_summary d') =
         consistent_checks (sd_summary d) + int (length (filter (passed svs) (map fst cs)))
     \<and> inconsistent_checks (sd_summary d') =
         inconsistent_checks (sd_summary d)
           + int (length (filter (\<lambda>c. \<not> passed svs c) (map fst cs)))
     \<and> map (\<lambda>c. (cd_name c, cd_is_consistent c, cd_state c)) (sd_checks d') =
         map (\<lambda>c. (cd_name c, cd_is_consistent c, cd_state c)) (sd_checks d)
           @ map (\<lambda>c. (c, passed svs c, if passed svs c then ''OK'' else ''FAIL'')) (map fst cs)"
  using assms(2)
proof (induction cs arbitrary: d)
  case Nil
  then show ?case by simp
next
  case (Cons a cs)
  obtain n dn where a: "a = (n, dn)" by (cases a)
  from Cons.prems a have n: "n \<in> set (map fst checks)" and sub: "set (map fst cs) \<subseteq> set (map fst checks)"
    by auto
  from check_results_total[OF n] obtain rs where rs: "check_results_of svs n = Inr rs"
    by blast
  from is_consistent_total[OF assms(1)] obtain ic where ic: "is_consistent svs n rs = Inr ic"
    by blast
  have p: "passed svs n = ic"
    by (simp add: passed_def check_verdict_def rs ic)
  define d1 where "d1 = d\<lparr>sd_checks := sd_checks d @
        [\<lparr>cd_name = n, cd_display_name = dn, cd_state = (if ic then ''OK'' else ''FAIL''),
          cd_is_consistent = ic,
          cd_values = fold (\<lambda>(hn, v) dct. dict_set dct hn v) (zip (map fst svs) rs) []\<rparr>],
       sd_summary := (if ic then (sd_summary d)\<lparr>consistent_checks := consistent_checks (sd_summary d) + 1\<rparr>
                      else (sd_summary d)\<lparr>inconsistent_checks := inconsistent_checks (sd_summary d) + 1\<rparr>)\<rparr>"
  have step: "checks_loop svs (a # cs) d = checks_loop svs cs d1"
    by (simp add: a rs ic d1_def Let_def)
  from Cons.IH[OF sub, of d1] obtain d' where
    r: "checks_loop svs cs d1 = Inr d'"
    and t: "total_checks (sd_summary d') = total_checks (sd_summary d1)"
    and c: "consistent_checks (sd_summary d') =
         consistent_checks (sd_summary d1) + int (length (filter (passed svs) (map fst cs)))"
    and i: "inconsistent_checks (sd_summary d') =
         inconsistent_checks (sd_summary d1)
           + int (length (filter (\<lambda>c. \<not> passed svs c) (map fst cs)))"
    and m: "map (\<lambda>c. (cd_name c, cd_is_consistent c, cd_state c)) (sd_checks d') =
         map (\<lambda>c. (cd_name c, cd_is_consistent c, cd_state c)) (sd_checks d1)
           @ map (\<lambda>c. (c, passed svs c, if passed svs c then ''OK'' else ''FAIL'')) (map fst cs)"
    by blast
  have t1: "total_checks (sd_summary d1) = total_checks (sd_summary d)"
    by (simp add: d1_def)
  have c1: "consistent_checks (sd_summary d1) = consistent_checks (sd_summary d) + (if ic then 1 else 0)"
    by (simp add: d1_def)
  have i1: "inconsistent_checks (sd_summary d1) = inconsistent_checks (sd_summary d) + (if ic then 0 else 1)"
    by (simp add: d1_def)
  have m1: "map (\<lambda>c. (cd_name c, cd_is_consistent c, cd_state c)) (sd_checks d1) =
      map (\<lambda>c. (cd_name c, cd_is_consistent c, cd_state c)) (sd_checks d)
        @ [(n, ic, if ic then ''OK'' else ''FAIL'')]"
    by (simp add: d1_def)
  show ?case
  proof (intro exI conjI)
    show "checks_loop svs (a # cs) d = Inr d'" by (simp only: step r)
    show "total_checks (sd_summary d') = total_checks (sd_summary d)" by (simp only: t t1)
    show "consistent_checks (sd_summary d') =
         consistent_checks (sd_summary d) + int (length (filter (passed svs) (map fst (a # cs))))"
      by (simp add: c c1 a p)
    show "inconsistent_checks (sd_summary d') =
         inconsistent_checks (sd_summary d)
           + int (length (filter (\<lambda>c. \<not> passed svs c) (map fst (a # cs))))"
      by (simp add: i i1 a p)
    show "map (\<lambda>c. (cd_name c, cd_is_consistent c, cd_state c)) (sd_checks d') =
         map (\<lambda>c. (cd_name c, cd_is_consistent c, cd_state c)) (sd_checks d)
           @ map (\<lambda>c. (c, passed svs c, if passed svs c then ''OK'' else ''FAIL'')) (map fst (a # cs))"
      by (simp add: m m1 a p)
  qed
qed

text \<open>
  Claim C9. For a checker with at least one server, \<open>get_structured_data\<close> returns a
  result whose summary has \<open>total_checks = 17\<close>, whose two counters add up to
  \<open>total_checks\<close>, and in which every check of the enumeration, in order, is counted once:
  in \<open>consistent_checks\<close> with state \<open>OK\<close> when \<open>is_consistent\<close> is true on its values,
  in \<open>inconsistent_checks\<close> with state \<open>FAIL\<close> otherwise.
\<close>

theorem structured_summary_counts:
  assumes "svs \<noteq> []"
  shows "\<exists>d. get_structured_data svs = Inr d
     \<and> total_checks (sd_summary d) = 17
     \<and> consistent_checks (sd_summary d) + inconsistent_checks (sd_summary d)
          = total_checks (sd_summary d)
     \<and> consistent_checks (sd_summary d) = int (length (filter (passed svs) (map fst checks)))
     \<and> inconsistent_checks (sd_summary d)
          = int (length (filter (\<lambda>c. \<not> passed svs c) (map fst checks)))
     \<and> map (\<lambda>c. (cd_name c, cd_is_consistent c, cd_state c)) (sd_checks d) =
          map (\<lambda>c. (c, passed svs c, if passed svs c then ''OK'' else ''FAIL'')) (map fst checks)"
proof -
  let ?d0 = "\<lparr>sd_timestamp = None, sd_domain = None,
               sd_servers = map (\<lambda>(hostname, s). (hostname, hostname_short s)) svs,
               sd_checks = [],
               sd_summary = \<lparr>total_checks = int (length checks),
                              consistent_checks = 0, inconsistent_checks = 0\<rparr>\<rparr>"
  have g: "get_structured_data svs = checks_loop svs checks ?d0"
    by (simp add: get_structured_data_def Let_def)
  have len: "length checks = 17" by (simp add: checks_def)
  from checks_loop_counts[OF assms subset_refl, of ?d0] obtain d where
    r: "checks_loop svs checks ?d0 = Inr d"
    and t: "total_checks (sd_summary d) = total_checks (sd_summary ?d0)"
    and c: "consistent_checks (sd_summary d) =
         consistent_checks (sd_summary ?d0) + int (length (filter (passed svs) (map fst checks)))"
    and i: "inconsistent_checks (sd_summary d) =
         inconsistent_checks (sd_summary ?d0)
           + int (length (filter (\<lambda>c. \<not> passed svs c) (map fst checks)))"
    and m: "map (\<lambda>c. (cd_name c, cd_is_consistent c, cd_state c)) (sd_checks d) =
         map (\<lambda>c. (cd_name c, cd_is_consistent c, cd_state c)) (sd_checks ?d0)
           @ map (\<lambda>c. (c, passed svs c, if passed svs c then ''OK'' else ''FAIL'')) (map fst checks)"
    by blast
  have t': "total_checks (sd_summary d) = 17" using t len by simp
  have c': "consistent_checks (sd_summary d) = int (length (filter (passed svs) (map fst checks)))"
    using c by simp
  have i': "inconsistent_checks (sd_summary d)
          = int (length (filter (\<lambda>c. \<not> passed svs c) (map fst checks)))"
    using i by simp
  have m': "map (\<lambda>c. (cd_name c, cd_is_consistent c, cd_state c)) (sd_checks d) =
          map (\<lambda>c. (c, passed svs c, if passed svs c then ''OK'' else ''FAIL'')) (map fst checks)"
    using m by simp
  have "length (filter (passed svs) (map fst checks))
      + length (filter (\<lambda>c. \<not> passed svs c) (map fst checks)) = length (map fst checks)"
    by (rule sum_length_filter_compl)
  then have s: "consistent_checks (sd_summary d) + inconsistent_checks (sd_summary d)
          = total_checks (sd_summary d)"
    unfolding c' i' t' using len by simp
  show ?thesis
    using g r t' s c' i' m' by (intro exI[of _ d] conjI) simp_all
qed

lemma sample_passed:
  "map (passed [(''ipa01'', sample_server 1), (''ipa02'', sample_server 0), (''ipa03'', sample_server 0)])
     (map fst checks)
   = [True, True, True, True, True, True, True, True, True, True, True, True, False, True, True,
      True, True]"
  by (simp add: passed_def check_verdict_def check_results_of_def getattr_def is_consistent_def
      checks_def sample_server_def initial_attrs_def of_str_opt_def of_int_opt_def of_bool_opt_def
      py_count_def py_in_def)


theorem structured_summary_witness:
  "\<exists>d. get_structured_data
          [(''ipa01'', sample_server 1), (''ipa02'', sample_server 0), (''ipa03'', sample_server 0)]
        = Inr d
     \<and> total_checks (sd_summary d) = 17
     \<and> consistent_checks (sd_summary d) = 16
     \<and> inconsistent_checks (sd_summary d) = 1
     \<and> (''conflicts'', False, ''FAIL'')
          \<in> set (map (\<lambda>c. (cd_name c, cd_is_consistent c, cd_state c)) (sd_checks d))"
proof -
  let ?svs = "[(''ipa01'', sample_server 1), (''ipa02'', sample_server 0), (''ipa03'', sample_server 0)]"
  have ne: "?svs \<noteq> []" by simp
  from structured_summary_counts[OF ne] obtain d where
    r: "get_structured_data ?svs = Inr d"
    and t: "total_checks (sd_summary d) = 17"
    and c: "consistent_checks (sd_summary d) = int (length (filter (passed ?svs) (map fst checks)))"
    and i: "inconsistent_checks (sd_summary d)
          = int (length (filter (\<lambda>c. \<not> passed ?svs c) (map fst checks)))"
    and m: "map (\<lambda>c. (cd_name c, cd_is_consistent c, cd_state c)) (sd_checks d) =
          map (\<lambda>c. (c, passed ?svs c, if passed ?svs c then ''OK'' else ''FAIL'')) (map fst checks)"
    by blast
  have l1: "length (filter P xs) = length (filter (\<lambda>b. b) (map P xs))" for P :: "pystr \<Rightarrow> bool" and xs
    by (simp add: filter_map comp_def)
  have l2: "length (filter (\<lambda>c. \<not> P c) xs) = length (filter (\<lambda>b. \<not> b) (map P xs))"
    for P :: "pystr \<Rightarrow> bool" and xs
    by (simp add: filter_map comp_def)
  have c': "consistent_checks (sd_summary d) = 16"
    unfolding c l1[of "passed ?svs"] sample_passed by simp
  have i': "inconsistent_checks (sd_summary d) = 1"
    unfolding i l2[of "passed ?svs"] sample_passed by simp
  have p: "passed ?svs ''conflicts'' = False"
    using sample_passed by (simp add: checks_def)
  have "''conflicts'' \<in> set (map fst checks)" by (simp add: checks_def)
  then have "(''conflicts'', passed ?svs ''conflicts'', if passed ?svs ''conflicts'' then ''OK'' else ''FAIL'')
      \<in> set (map (\<lambda>c. (c, passed ?svs c, if passed ?svs c then ''OK'' else ''FAIL'')) (map fst checks))"
    unfolding set_map by (rule imageI)
  then have m': "(''conflicts'', False, ''FAIL'')
          \<in> set (map (\<lambda>c. (cd_name c, cd_is_consistent c, cd_state c)) (sd_checks d))"
    unfolding m p by simp
  from r t c' i' m' show ?thesis by blast
qed

section \<open>Facts about the collector\<close>

lemma search_Results:
  "conn self \<Longrightarrow> env_search env q = Results es \<Longrightarrow>
   search env q self = (self\<lparr>searches := searches self @ [q]\<rparr>, Inr (SList es))"
  by (simp add: search_def Let_def)

lemma search_NotFound:
  "conn self \<Longrightarrow> env_search env q = NO_SUCH_OBJECT \<or> env_search env q = SERVER_DOWN \<Longrightarrow>
   search env q self = (self\<lparr>searches := searches self @ [q]\<rparr>, Inr SFalse)"
  by (auto simp: search_def Let_def)

lemma then_return_Inr:
  "act self = (s', Inr v) \<Longrightarrow> then_return act f self = (s', f v)"
  by (simp add: then_return_def)

lemma py_contains_sublist: "py_contains sub s = sublist sub s"
  by (induction s) (simp_all add: sublist_Cons_right)

lemma ghost_loop_count:
  "ghost_loop vs r = r + int (length (filter (\<lambda>v. is_ghost_text (py_str_bytes v)) vs))"
  by (induction vs arbitrary: r) (simp_all add: Let_def)

lemma sublist_drop_head:
  assumes "x \<notin> set p" and "p \<noteq> []"
  shows "sublist p (x # ys) \<longleftrightarrow> sublist p ys"
proof -
  from assms obtain a p' where p: "p = a # p'" and "a \<noteq> x"
    by (cases p) auto
  then have "\<not> prefix p (x # ys)" by simp
  then show ?thesis by (simp add: sublist_Cons_right)
qed

lemma sublist_drop_last:
  assumes "x \<notin> set p" and "p \<noteq> []"
  shows "sublist p (ys @ [x]) \<longleftrightarrow> sublist p ys"
proof -
  have "sublist p (ys @ [x]) \<longleftrightarrow> sublist (rev p) (x # rev ys)"
    using sublist_rev[of p "ys @ [x]"] by simp
  also have "\<dots> \<longleftrightarrow> sublist (rev p) (rev ys)"
    using assms by (intro sublist_drop_head) simp_all
  also have "\<dots> \<longleftrightarrow> sublist p ys" by simp
  finally show ?thesis .
qed

lemma escape_plain:
  "plain_ascii v \<Longrightarrow> concat (map (escape_byte (CHR 0x27)) v) = v"
  by (induction v) (auto simp: plain_ascii_def escape_byte_def Let_def)

lemma py_str_plain:
  assumes "plain_ascii v"
  shows "py_str_bytes v = CHR ''b'' # CHR 0x27 # v @ [CHR 0x27]"
proof -
  from assms have "CHR 0x27 \<notin> set v" by (auto simp: plain_ascii_def list_all_iff)
  then show ?thesis using escape_plain[OF assms] by (simp add: py_str_bytes_def Let_def)
qed

lemma sublist_py_str_plain:
  assumes "plain_ascii v" and "p \<noteq> []" and "CHR ''b'' \<notin> set p" and "CHR 0x27 \<notin> set p"
  shows "sublist p (py_str_bytes v) \<longleftrightarrow> sublist p v"
  unfolding py_str_plain[OF assms(1)]
  using assms(2-4) by (simp add: sublist_drop_head sublist_drop_last)

section \<open>The claims about the collector\<close>

text \<open>
  Claim C7. When the tombstone search returns entries and the first one carries the
  attribute \<open>nscpentrywsi\<close>, the result of \<open>_ghost_replicas\<close> is the number of sub-values
  of that attribute on that first entry whose text contains \<open>replica \<close> and does not
  contain \<open>ldap\<close>. The text is \<open>str\<close> of the sub-value; for sub-values of plain
  printable ASCII the same holds of the octets themselves.
\<close>

theorem ghost_replicas_counts_first_entry:
  assumes "conn self"
    and "env_search env (ghost_query self) = Results ((dn, attrs) # rest)"
    and "attrs ''nscpentrywsi'' = Some vs"
  shows "snd (ghost_replicas env self) =
           Inr (int (length (filter (\<lambda>v. sublist ''replica '' (py_str_bytes v)
                                        \<and> \<not> sublist ''ldap'' (py_str_bytes v)) vs)))
       \<and> (list_all plain_ascii vs \<longrightarrow>
            snd (ghost_replicas env self) =
              Inr (int (length (filter (\<lambda>v. sublist ''replica '' v \<and> \<not> sublist ''ldap'' v) vs))))"
proof -
  have g: "ghost_replicas env self =
      (self\<lparr>searches := searches self @ [ghost_query self]\<rparr>, Inr (ghost_loop vs 0))"
    by (simp add: ghost_replicas_def then_return_def search_Results[OF assms(1,2)]
        first_entry_def assms(3))
  have 1: "snd (ghost_replicas env self) =
           Inr (int (length (filter (\<lambda>v. sublist ''replica '' (py_str_bytes v)
                                        \<and> \<not> sublist ''ldap'' (py_str_bytes v)) vs)))"
    by (simp add: g ghost_loop_count is_ghost_text_def py_contains_sublist)
  have 2: "filter (\<lambda>v. sublist ''replica '' (py_str_bytes v) \<and> \<not> sublist ''ldap'' (py_str_bytes v)) vs
         = filter (\<lambda>v. sublist ''replica '' v \<and> \<not> sublist ''ldap'' v) vs"
    if "list_all plain_ascii vs"
  proof (rule filter_cong[OF refl])
    fix v assume "v \<in> set vs"
    with that have p: "plain_ascii v" by (simp add: list_all_iff)
    have a: "sublist ''replica '' (py_str_bytes v) \<longleftrightarrow> sublist ''replica '' v"
      by (rule sublist_py_str_plain[OF p]) simp_all
    have b: "sublist ''ldap'' (py_str_bytes v) \<longleftrightarrow> sublist ''ldap'' v"
      by (rule sublist_py_str_plain[OF p]) simp_all
    show "(sublist ''replica '' (py_str_bytes v) \<and> \<not> sublist ''ldap'' (py_str_bytes v))
        = (sublist ''replica '' v \<and> \<not> sublist ''ldap'' v)"
      by (simp only: a b)
  qed
  show ?thesis using 1 2 by simp
qed

theorem ghost_replicas_witness:
  "snd (ghost_replicas
         (env_of (\<lambda>q. Results
            [(''cn=replica'', [''nscpentrywsi'' \<mapsto> [''replica ldap://server1'', ''replica foo-bar'']]),
             (''cn=other'', [''nscpentrywsi'' \<mapsto> [''replica old-host'']])]))
         bound_server) = Inr 1
   \<and> snd (ghost_replicas
         (env_of (\<lambda>q. Results [(''cn=replica'', [''nscpentrywsi'' \<mapsto> [''replica ldap://server1'']])]))
         bound_server) = Inr 0
   \<and> snd (ghost_replicas
         (env_of (\<lambda>q. Results [(''cn=replica'', [''nscpentrywsi'' \<mapsto> [''replica foo-bar'']])]))
         bound_server) = Inr 1"
  using ghost_replicas_counts_first_entry
    [of bound_server
        "env_of (\<lambda>q. Results
            [(''cn=replica'', [''nscpentrywsi'' \<mapsto> [''replica ldap://server1'', ''replica foo-bar'']]),
             (''cn=other'', [''nscpentrywsi'' \<mapsto> [''replica old-host'']])])"
        "''cn=replica''" "[''nscpentrywsi'' \<mapsto> [''replica ldap://server1'', ''replica foo-bar'']]"
        "[(''cn=other'', [''nscpentrywsi'' \<mapsto> [''replica old-host'']])]"
        "[''replica ldap://server1'', ''replica foo-bar'']", THEN conjunct2]
    ghost_replicas_counts_first_entry
    [of bound_server
        "env_of (\<lambda>q. Results [(''cn=replica'', [''nscpentrywsi'' \<mapsto> [''replica ldap://server1'']])])"
        "''cn=replica''" "[''nscpentrywsi'' \<mapsto> [''replica ldap://server1'']]" "[]"
        "[''replica ldap://server1'']", THEN conjunct2]
    ghost_replicas_counts_first_entry
    [of bound_server
        "env_of (\<lambda>q. Results [(''cn=replica'', [''nscpentrywsi'' \<mapsto> [''replica foo-bar'']])])"
        "''cn=replica''" "[''nscpentrywsi'' \<mapsto> [''replica foo-bar'']]" "[]"
        "[''replica foo-bar'']", THEN conjunct2]
  by (simp add: bound_server_def initial_attrs_def env_of_def plain_ascii_def
      py_contains_sublist[symmetric])

lemma agreements_loop_skip:
  "\<forall>e\<in>set es. \<not> has_both (snd e) \<Longrightarrow> agreements_loop domain es msg healthy = Inr (msg, healthy)"
  by (induction es arbitrary: msg healthy) (auto simp: case_prod_beta)

lemma replication_agreements_Results:
  assumes "conn self" and "env_search env (agreements_query self) = Results es" and "es \<noteq> []"
  shows "snd (replication_agreements env self) =
      (case agreements_loop (domain_name self) es [] True of Inl e \<Rightarrow> Inl e
       | Inr (msg, healthy) \<Rightarrow>
           Inr (if msg \<noteq> [] then py_join [CHR 0x0A] msg
                else ''No replication agreements found'', healthy))"
  using assms(3)
  by (simp add: replication_agreements_def then_return_def search_Results[OF assms(1,2)]
      no_results_def)

text \<open>
  Claim C10. When the agreement search returns entries and none of them carries both
  \<open>nsDS5ReplicaHost\<close> and \<open>nsds5replicaLastUpdateStatus\<close>, the collector returns the text
  \<open>No replication agreements found\<close> with the health flag still \<open>True\<close>.
\<close>

theorem agreements_without_attributes:
  assumes "conn self"
    and "env_search env (agreements_query self) = Results es"
    and "es \<noteq> []"
    and "\<forall>e\<in>set es. \<not> has_both (snd e)"
  shows "snd (replication_agreements env self) = Inr (''No replication agreements found'', True)"
  by (simp add: replication_agreements_Results[OF assms(1,2,3)] agreements_loop_skip[OF assms(4)])

theorem agreements_without_attributes_witness:
  "snd (replication_agreements
         (env_of (\<lambda>q. Results
            [(''cn=meToipa02'', [''nsDS5ReplicaHost'' \<mapsto> [''ipa02.example.com'']]),
             (''cn=meToipa03'', Map.empty)]))
         bound_server) = Inr (''No replication agreements found'', True)"
  using agreements_without_attributes
    [of bound_server
        "env_of (\<lambda>q. Results
            [(''cn=meToipa02'', [''nsDS5ReplicaHost'' \<mapsto> [''ipa02.example.com'']]),
             (''cn=meToipa03'', Map.empty)])"
        "[(''cn=meToipa02'', [''nsDS5ReplicaHost'' \<mapsto> [''ipa02.example.com'']]),
             (''cn=meToipa03'', Map.empty)]"]
  by (simp add: bound_server_def initial_attrs_def env_of_def has_both_def)

lemma agreements_loop_health:
  assumes "\<forall>e\<in>set es. has_both (snd e) \<longrightarrow> agreement_readable e"
  shows "\<exists>msg'. agreements_loop domain es msg healthy =
      Inr (msg', healthy \<and> (\<forall>e\<in>set es. has_both (snd e) \<longrightarrow> agreement_healthy e))"
  using assms
proof (induction es arbitrary: msg healthy)
  case Nil
  then show ?case by simp
next
  case (Cons e es)
  obtain dn attrs where e: "e = (dn, attrs)" by (cases e)
  from Cons.prems have rest: "\<forall>e\<in>set es. has_both (snd e) \<longrightarrow> agreement_readable e" by simp
  show ?case
  proof (cases "has_both attrs")
    case False
    from Cons.IH[OF rest, of msg healthy] obtain msg' where
      "agreements_loop domain es msg healthy =
        Inr (msg', healthy \<and> (\<forall>e\<in>set es. has_both (snd e) \<longrightarrow> agreement_healthy e))"
      by blast
    then show ?thesis using False by (simp add: e)
  next
    case True
    with Cons.prems e have "agreement_readable (dn, attrs)" by simp
    then obtain h s where h: "decode_first attrs ''nsDS5ReplicaHost'' = Inr h"
      and s: "decode_first attrs ''nsds5replicaLastUpdateStatus'' = Inr s"
      by (auto simp: agreement_readable_def split: sum.splits)
    let ?ok = "normalize_status s \<in> set [''0'', ''18'']"
    have ah: "agreement_healthy (dn, attrs) = ?ok"
      by (simp add: agreement_healthy_def s)
    let ?msg1 = "msg @ [py_replace h (''.'' @ domain) '''' @ '' '' @ normalize_status s]"
    let ?h1 = "if \<not> ?ok then False else healthy"
    have step: "agreements_loop domain (e # es) msg healthy = agreements_loop domain es ?msg1 ?h1"
      using True by (simp add: e h s Let_def)
    from Cons.IH[OF rest, of ?msg1 ?h1] obtain msg' where
      r: "agreements_loop domain es ?msg1 ?h1 =
        Inr (msg', ?h1 \<and> (\<forall>e\<in>set es. has_both (snd e) \<longrightarrow> agreement_healthy e))"
      by blast
    have "(?h1 \<and> (\<forall>e\<in>set es. has_both (snd e) \<longrightarrow> agreement_healthy e))
        = (healthy \<and> (\<forall>e\<in>set (e # es). has_both (snd e) \<longrightarrow> agreement_healthy e))"
      using True ah by (auto simp: e)
    with step r show ?thesis by (intro exI[of _ msg']) (simp only:)
  qed
qed


lemma normalize_status_example:
  "normalize_status ''Error (5) incremental update failed'' = ''5''"
  by (simp add: normalize_status_def py_replace_def py_partition_head_def py_strip_def)

text \<open>
  Claim C8, amended. For a search that returns the entries \<open>es\<close>, each entry that
  carries both attributes readable: the health flag returned is true exactly when
  \<open>es\<close> is not empty and every entry that carries both attributes has a status whose
  normalised token is \<open>0\<close> or \<open>18\<close>; entries that lack an attribute do not count. A
  search that returns no entry, or nothing, gives the text
  \<open>No replication agreements found\<close> with the flag false. The status
  \<open>Error (5) incremental update failed\<close> normalises to \<open>5\<close>, which is not healthy.
\<close>

theorem agreements_health:
  assumes "conn self"
  shows "(env_search env (agreements_query self) = Results es
          \<and> (\<forall>e\<in>set es. has_both (snd e) \<longrightarrow> agreement_readable e)
          \<longrightarrow> (\<exists>txt. snd (replication_agreements env self) =
                 Inr (txt, es \<noteq> [] \<and> (\<forall>e\<in>set es. has_both (snd e) \<longrightarrow> agreement_healthy e))))
       \<and> (env_search env (agreements_query self) \<in> {Results [], NO_SUCH_OBJECT, SERVER_DOWN}
          \<longrightarrow> snd (replication_agreements env self) = Inr (''No replication agreements found'', False))
       \<and> normalize_status ''Error (5) incremental update failed'' = ''5''
       \<and> ''5'' \<notin> set [''0'', ''18'']"
proof -
  let ?q = "agreements_query self"
  have 1: "\<exists>txt. snd (replication_agreements env self) =
                 Inr (txt, es \<noteq> [] \<and> (\<forall>e\<in>set es. has_both (snd e) \<longrightarrow> agreement_healthy e))"
    if r: "env_search env ?q = Results es"
      and wf: "\<forall>e\<in>set es. has_both (snd e) \<longrightarrow> agreement_readable e"
  proof (cases "es = []")
    case True
    then show ?thesis
      by (simp add: replication_agreements_def then_return_def search_Results[OF assms r]
          no_results_def)
  next
    case False
    from agreements_loop_health[OF wf, of "domain_name self" "[]" True] obtain msg' where
      l: "agreements_loop (domain_name self) es [] True =
        Inr (msg', \<forall>e\<in>set es. has_both (snd e) \<longrightarrow> agreement_healthy e)"
      by auto
    show ?thesis
      using False by (simp add: replication_agreements_Results[OF assms r False] l)
  qed
  have 2: "snd (replication_agreements env self) = Inr (''No replication agreements found'', False)"
    if "env_search env ?q \<in> {Results [], NO_SUCH_OBJECT, SERVER_DOWN}"
  proof -
    from that consider "env_search env ?q = Results []"
      | "env_search env ?q = NO_SUCH_OBJECT \<or> env_search env ?q = SERVER_DOWN" by auto
    then show ?thesis
    proof cases
      case 1
      then show ?thesis
        by (simp add: replication_agreements_def then_return_def search_Results[OF assms 1]
            no_results_def)
    next
      case 2
      then show ?thesis
        by (simp add: replication_agreements_def then_return_def search_NotFound[OF assms 2]
            no_results_def)
    qed
  qed
  have 3: "''5'' \<notin> set [''0'', ''18'']" by simp
  from 1 2 3 normalize_status_example show ?thesis by blast
qed

lemmas eval_defs = bound_server_def initial_attrs_def env_of_def has_both_def
  replication_agreements_def then_return_def search_def no_results_def Let_def
  decode_first_def first_item_def safe_decode_def utf8_decode_def agreements_query_def
  normalize_status_def py_replace_def py_partition_head_def py_strip_def
  agreement_readable_def agreement_healthy_def

theorem agreements_health_witness:
  "snd (replication_agreements
         (env_of (\<lambda>q. Results
            [(''cn=meToipa02'',
              [''nsDS5ReplicaHost'' \<mapsto> [''ipa02.example.com''],
               ''nsds5replicaLastUpdateStatus'' \<mapsto> [''Error (0) Replica acquired successfully'']]),
             (''cn=meToipa03'',
              [''nsDS5ReplicaHost'' \<mapsto> [''ipa03.example.com''],
               ''nsds5replicaLastUpdateStatus'' \<mapsto> [''Error (18) Replication error acquiring replica'']])]))
         bound_server) = Inr (''ipa02 0'' @ [CHR 0x0A] @ ''ipa03 18'', True)
   \<and> snd (replication_agreements
         (env_of (\<lambda>q. Results
            [(''cn=meToipa02'',
              [''nsDS5ReplicaHost'' \<mapsto> [''ipa02.example.com''],
               ''nsds5replicaLastUpdateStatus'' \<mapsto> [''Error (5) incremental update failed'']])]))
         bound_server) = Inr (''ipa02 5'', False)
   \<and> snd (replication_agreements (env_of (\<lambda>q. Results [])) bound_server)
       = Inr (''No replication agreements found'', False)"
  using agreements_health
    [of bound_server
        "env_of (\<lambda>q. Results
            [(''cn=meToipa02'',
              [''nsDS5ReplicaHost'' \<mapsto> [''ipa02.example.com''],
               ''nsds5replicaLastUpdateStatus'' \<mapsto> [''Error (0) Replica acquired successfully'']]),
             (''cn=meToipa03'',
              [''nsDS5ReplicaHost'' \<mapsto> [''ipa03.example.com''],
               ''nsds5replicaLastUpdateStatus'' \<mapsto> [''Error (18) Replication error acquiring replica'']])])"
        "[(''cn=meToipa02'',
              [''nsDS5ReplicaHost'' \<mapsto> [''ipa02.example.com''],
               ''nsds5replicaLastUpdateStatus'' \<mapsto> [''Error (0) Replica acquired successfully'']]),
             (''cn=meToipa03'',
              [''nsDS5ReplicaHost'' \<mapsto> [''ipa03.example.com''],
               ''nsds5replicaLastUpdateStatus'' \<mapsto> [''Error (18) Replication error acquiring replica'']])]",
      THEN conjunct1]
    agreements_health
    [of bound_server
        "env_of (\<lambda>q. Results
            [(''cn=meToipa02'',
              [''nsDS5ReplicaHost'' \<mapsto> [''ipa02.example.com''],
               ''nsds5replicaLastUpdateStatus'' \<mapsto> [''Error (5) incremental update failed'']])])"
        "[(''cn=meToipa02'',
              [''nsDS5ReplicaHost'' \<mapsto> [''ipa02.example.com''],
               ''nsds5replicaLastUpdateStatus'' \<mapsto> [''Error (5) incremental update failed'']])]",
      THEN conjunct1]
    agreements_health
    [of bound_server "env_of (\<lambda>q. Results [])", THEN conjunct2, THEN conjunct1]
  by (simp add: eval_defs)

text \<open>
  The claim C8 as stated fails: an agreement entry whose status normalises to \<open>5\<close> but
  which has no host attribute leaves the health flag true.
\<close>

theorem agreement_without_host_counterexample:
  "normalize_status ''Error (5) incremental update failed'' = ''5''
   \<and> ''5'' \<notin> set [''0'', ''18'']
   \<and> snd (replication_agreements
         (env_of (\<lambda>q. Results
            [(''cn=meToipa02'',
              [''nsds5replicaLastUpdateStatus'' \<mapsto> [''Error (5) incremental update failed'']])]))
         bound_server) = Inr (''No replication agreements found'', True)"
  by (simp add: eval_defs)

lemmas bind_defs = bound_server_def initial_attrs_def env_of_def
  anon_bind_def anon_bind_query_def then_return_def search_def Let_def first_entry_def
  decode_first_def first_item_def safe_decode_def utf8_decode_def py_upper_def

lemma py_upper_examples:
  "py_upper ''on'' = ''ON''" "py_upper ''off'' = ''OFF''" "py_upper ''rootdse'' = ''ROOTDSE''"
  by (simp_all add: py_upper_def)

text \<open>
  Claim C6, amended. \<open>_anon_bind\<close> returns \<open>ON\<close>, \<open>OFF\<close> or \<open>ROOTDSE\<close> exactly when the
  decoded first value of the attribute on the first entry is the lower-case text
  \<open>on\<close>, \<open>off\<close> or \<open>rootdse\<close>; every other decoded value, an entry without the
  attribute, and a search that returns no entry or fails with \<open>NO_SUCH_OBJECT\<close> or
  \<open>SERVER_DOWN\<close> give \<open>ERROR\<close>.
\<close>

theorem anon_bind_lowercase_only:
  assumes "conn self"
  shows "(env_search env anon_bind_query = Results ((dn, attrs) # rest)
          \<and> attrs ''nsslapd-allow-anonymous-access'' = Some (v # vs)
          \<and> utf8_decode v = Inr state
          \<longrightarrow> snd (anon_bind env self) =
                Inr (if state = ''on'' then ''ON'' else if state = ''off'' then ''OFF''
                     else if state = ''rootdse'' then ''ROOTDSE'' else ''ERROR''))
       \<and> (env_search env anon_bind_query = Results ((dn, attrs) # rest)
          \<and> attrs ''nsslapd-allow-anonymous-access'' = None
          \<longrightarrow> snd (anon_bind env self) = Inr ''ERROR'')
       \<and> (env_search env anon_bind_query \<in> {Results [], NO_SUCH_OBJECT, SERVER_DOWN}
          \<longrightarrow> snd (anon_bind env self) = Inr ''ERROR'')"
proof -
  let ?k = "''nsslapd-allow-anonymous-access''"
  have 1: "snd (anon_bind env self) =
                Inr (if state = ''on'' then ''ON'' else if state = ''off'' then ''OFF''
                     else if state = ''rootdse'' then ''ROOTDSE'' else ''ERROR'')"
    if r: "env_search env anon_bind_query = Results ((dn, attrs) # rest)"
      and a: "attrs ?k = Some (v # vs)" and d: "utf8_decode v = Inr state"
  proof -
    have "decode_first attrs ?k = Inr state"
      by (simp add: decode_first_def first_item_def safe_decode_def a d)
    then show ?thesis
      by (simp add: anon_bind_def then_return_def search_Results[OF assms r] first_entry_def a
          py_upper_examples)
  qed
  have 2: "snd (anon_bind env self) = Inr ''ERROR''"
    if r: "env_search env anon_bind_query = Results ((dn, attrs) # rest)"
      and a: "attrs ?k = None"
    by (simp add: anon_bind_def then_return_def search_Results[OF assms r] first_entry_def a)
  have 3: "snd (anon_bind env self) = Inr ''ERROR''"
    if "env_search env anon_bind_query \<in> {Results [], NO_SUCH_OBJECT, SERVER_DOWN}"
  proof -
    from that consider "env_search env anon_bind_query = Results []"
      | "env_search env anon_bind_query = NO_SUCH_OBJECT \<or> env_search env anon_bind_query = SERVER_DOWN"
      by auto
    then show ?thesis
    proof cases
      case 1
      then show ?thesis
        by (simp add: anon_bind_def then_return_def search_Results[OF assms 1] first_entry_def)
    next
      case 2
      then show ?thesis
        by (simp add: anon_bind_def then_return_def search_NotFound[OF assms 2] first_entry_def)
    qed
  qed
  from 1 2 3 show ?thesis by blast
qed

theorem anon_bind_witness:
  "snd (anon_bind (env_of (\<lambda>q. Results
          [(''cn=config'', [''nsslapd-allow-anonymous-access'' \<mapsto> [''rootdse'']])])) bound_server)
     = Inr ''ROOTDSE''
   \<and> snd (anon_bind (env_of (\<lambda>q. Results
          [(''cn=config'', [''nsslapd-allow-anonymous-access'' \<mapsto> [''yes'']])])) bound_server)
     = Inr ''ERROR''
   \<and> snd (anon_bind (env_of (\<lambda>q. Results [(''cn=config'', Map.empty)])) bound_server)
     = Inr ''ERROR''
   \<and> snd (anon_bind (env_of (\<lambda>q. NO_SUCH_OBJECT)) bound_server) = Inr ''ERROR''"
  using anon_bind_lowercase_only
    [of bound_server
        "env_of (\<lambda>q. Results
          [(''cn=config'', [''nsslapd-allow-anonymous-access'' \<mapsto> [''rootdse'']])])"
        "''cn=config''" "[''nsslapd-allow-anonymous-access'' \<mapsto> [''rootdse'']]" "[]"
        "''rootdse''" "[]" "''rootdse''", THEN conjunct1]
    anon_bind_lowercase_only
    [of bound_server
        "env_of (\<lambda>q. Results
          [(''cn=config'', [''nsslapd-allow-anonymous-access'' \<mapsto> [''yes'']])])"
        "''cn=config''" "[''nsslapd-allow-anonymous-access'' \<mapsto> [''yes'']]" "[]"
        "''yes''" "[]" "''yes''", THEN conjunct1]
    anon_bind_lowercase_only
    [of bound_server "env_of (\<lambda>q. Results [(''cn=config'', Map.empty)])"
        "''cn=config''" "Map.empty" "[]", THEN conjunct2, THEN conjunct1]
    anon_bind_lowercase_only
    [of bound_server "env_of (\<lambda>q. NO_SUCH_OBJECT)", THEN conjunct2, THEN conjunct2]
  by (simp add: bound_server_def initial_attrs_def env_of_def utf8_decode_def)

text \<open>
  The claim C6 as stated fails: the value \<open>ON\<close> is, in upper case, one of the three
  accepted symbols, and the collector answers \<open>ERROR\<close>.
\<close>

theorem anon_bind_uppercase_counterexample:
  "py_upper ''ON'' \<in> set [''ON'', ''OFF'', ''ROOTDSE'']
   \<and> snd (anon_bind (env_of (\<lambda>q. Results
          [(''cn=config'', [''nsslapd-allow-anonymous-access'' \<mapsto> [''ON'']])])) bound_server)
     = Inr ''ERROR''"
  by (simp add: bind_defs)

lemma init_not_connected:
  assumes "env_bind env (''ldaps://'' @ host) binddn bindpw
             \<in> {BIND_SERVER_DOWN, BIND_NO_SUCH_OBJECT, BIND_INVALID_CREDENTIALS}"
  shows "FreeIPAServer_init env host domain binddn bindpw = Inr (initial_attrs host domain)"
proof -
  have u: "url (initial_attrs host domain) = ''ldaps://'' @ host"
    by (simp add: initial_attrs_def)
  from assms have "get_conn env (''ldaps://'' @ host) binddn bindpw = Inr False"
    by (auto simp: get_conn_def)
  then show ?thesis
    by (simp add: FreeIPAServer_init_def Let_def u) (simp add: initial_attrs_def)
qed

lemma initial_getattr:
  "c \<in> set (map fst checks) \<Longrightarrow> c \<noteq> ''hbac'' \<Longrightarrow> getattr (initial_attrs host domain) c = Inr PNone"
  by (auto simp: checks_def getattr_def initial_attrs_def of_str_opt_def of_int_opt_def of_bool_opt_def)

text \<open>
  Claim C5, amended. When the bind fails with \<open>SERVER_DOWN\<close>, \<open>NO_SUCH_OBJECT\<close> or
  \<open>INVALID_CREDENTIALS\<close>, the constructor returns with every metric at \<open>None\<close> except
  \<open>hbac\<close>, which keeps its initial 0; the health flag is false and no search has been
  sent.
\<close>

theorem failed_connection_leaves_initial_attributes:
  assumes "env_bind env (''ldaps://'' @ host) binddn bindpw
             \<in> {BIND_SERVER_DOWN, BIND_NO_SUCH_OBJECT, BIND_INVALID_CREDENTIALS}"
  shows "\<exists>s. FreeIPAServer_init env host domain binddn bindpw = Inr s
     \<and> (\<forall>c\<in>set (map fst checks). c \<noteq> ''hbac'' \<longrightarrow> getattr s c = Inr PNone)
     \<and> getattr s ''hbac'' = Inr (PInt 0)
     \<and> healthy_agreements s = False
     \<and> searches s = []"
proof (intro exI conjI)
  show "FreeIPAServer_init env host domain binddn bindpw = Inr (initial_attrs host domain)"
    by (rule init_not_connected[OF assms])
  show "\<forall>c\<in>set (map fst checks). c \<noteq> ''hbac'' \<longrightarrow> getattr (initial_attrs host domain) c = Inr PNone"
    using initial_getattr by blast
  show "getattr (initial_attrs host domain) ''hbac'' = Inr (PInt 0)"
    by (simp add: getattr_def initial_attrs_def of_int_opt_def)
  show "healthy_agreements (initial_attrs host domain) = False"
    by (simp add: initial_attrs_def)
  show "searches (initial_attrs host domain) = []"
    by (simp add: initial_attrs_def)
qed

theorem failed_connection_witness:
  "\<exists>s. FreeIPAServer_init
          \<lparr>env_bind = (\<lambda>u d p. BIND_INVALID_CREDENTIALS), env_search = (\<lambda>q. Results []),
           env_resolve = (\<lambda>n. DNSException)\<rparr>
          ''ipa02.example.com'' ''example.com'' ''cn=Directory Manager'' ''wrong'' = Inr s
     \<and> getattr s ''users'' = Inr PNone
     \<and> getattr s ''replicas'' = Inr PNone
     \<and> getattr s ''hbac'' = Inr (PInt 0)
     \<and> healthy_agreements s = False
     \<and> searches s = []"
proof -
  from failed_connection_leaves_initial_attributes
    [of "\<lparr>env_bind = (\<lambda>u d p. BIND_INVALID_CREDENTIALS), env_search = (\<lambda>q. Results []),
           env_resolve = (\<lambda>n. DNSException)\<rparr>"
        "''ipa02.example.com''" "''cn=Directory Manager''" "''wrong''" "''example.com''"]
  obtain s where
    "FreeIPAServer_init
          \<lparr>env_bind = (\<lambda>u d p. BIND_INVALID_CREDENTIALS), env_search = (\<lambda>q. Results []),
           env_resolve = (\<lambda>n. DNSException)\<rparr>
          ''ipa02.example.com'' ''example.com'' ''cn=Directory Manager'' ''wrong'' = Inr s"
    and a: "\<forall>c\<in>set (map fst checks). c \<noteq> ''hbac'' \<longrightarrow> getattr s c = Inr PNone"
    and "getattr s ''hbac'' = Inr (PInt 0)" "healthy_agreements s = False" "searches s = []"
    by auto
  moreover from a have "getattr s ''users'' = Inr PNone" "getattr s ''replicas'' = Inr PNone"
    by (simp_all add: checks_def)
  ultimately show ?thesis by blast
qed

text \<open>
  The claim C5 as stated fails: after a failed bind the metric \<open>hbac\<close> is 0, not
  \<open>None\<close>.
\<close>

theorem failed_connection_hbac_counterexample:
  "\<exists>s. FreeIPAServer_init
          \<lparr>env_bind = (\<lambda>u d p. BIND_SERVER_DOWN), env_search = (\<lambda>q. Results []),
           env_resolve = (\<lambda>n. DNSException)\<rparr>
          ''ipa01.example.com'' ''example.com'' ''cn=Directory Manager'' ''secret'' = Inr s
     \<and> getattr s ''hbac'' = Inr (PInt 0)
     \<and> getattr s ''hbac'' \<noteq> Inr PNone"
proof -
  have "FreeIPAServer_init
          \<lparr>env_bind = (\<lambda>u d p. BIND_SERVER_DOWN), env_search = (\<lambda>q. Results []),
           env_resolve = (\<lambda>n. DNSException)\<rparr>
          ''ipa01.example.com'' ''example.com'' ''cn=Directory Manager'' ''secret''
        = Inr (initial_attrs ''ipa01.example.com'' ''example.com'')"
    by (rule init_not_connected) simp
  moreover have "getattr (initial_attrs ''ipa01.example.com'' ''example.com'') ''hbac'' = Inr (PInt 0)"
    by (simp add: getattr_def initial_attrs_def of_int_opt_def)
  ultimately show ?thesis by simp
qed

lemmas init_defs = FreeIPAServer_init_def initial_attrs_def env_of_def get_conn_def
  collect_statements_def assign_def simple_def try_except_def check_context_def
  then_return_def search_def Let_def first_entry_def no_results_def count_results_def
  decode_first_or_def decode_first_def first_item_def safe_decode_def utf8_decode_def
  get_fqdn_def get_context_def user_base_of_def count_users_def count_groups_def
  count_hosts_def count_services_def count_netgroups_def count_hostgroups_def
  count_hbac_rules_def count_sudo_rules_def count_dns_zones_def count_certificates_def
  count_ldap_conflicts_def ghost_query_def ghost_replicas_def anon_bind_query_def
  anon_bind_def ms_adtrust_def agreements_query_def replication_agreements_def
  py_replace_def py_upper_def example_directory_def

text \<open>The constructor on the example directory: without a referral, and with a
  referral on the sudo rules, which has a \<open>try\<close> of its own.\<close>

lemma init_no_referral:
  "map_sum id (\<lambda>s. (users s, hosts s, hbac s, sudo s, zones s, certs s, conflicts s, ghosts s,
                      bind s, msdcs s, replicas s, healthy_agreements s))
     (FreeIPAServer_init (env_of (example_directory None))
        ''ipa01.example.com'' ''example.com'' ''cn=Directory Manager'' ''secret'')
   = Inr (Some ''250'', Some 3, Some 2, Some 1, Some 0, Some 0, Some 0, Some 0,
          Some ''ON'', Some False, Some ''No replication agreements found'', False)"
  by (simp add: init_defs)


lemma init_sudo_referral:
  "map_sum id (\<lambda>s. (users s, hosts s, hbac s, sudo s, zones s, certs s, conflicts s, ghosts s,
                      bind s, msdcs s, replicas s, healthy_agreements s))
     (FreeIPAServer_init
        (env_of (example_directory (Some ''cn=sudorules,cn=sudo,dc=example,dc=com'')))
        ''ipa01.example.com'' ''example.com'' ''cn=Directory Manager'' ''secret'')
   = Inr (Some ''250'', Some 3, Some 2, Some 0, Some 0, Some 0, Some 0, Some 0,
          Some ''ON'', Some False, Some ''No replication agreements found'', False)"
  by (simp add: init_defs)

text \<open>
  Claim C4 says that a referral during the query of one metric turns only that metric
  into its default and that every other metric is still collected. The constructor does
  so for the HBAC and the sudo rules only. On the example directory with the DNS zones
  query answered by a referral, the metrics collected before it keep their values,
  \<open>zones\<close> stays \<open>None\<close> instead of 0, and certificates, conflicts, ghosts, bind mode,
  trust flag and replication status are not collected.
\<close>

theorem referral_on_zones_aborts_collection:
  "map_sum id (\<lambda>s. (users s, hosts s, hbac s, sudo s, zones s, certs s, conflicts s, ghosts s,
                      bind s, msdcs s, replicas s, healthy_agreements s))
     (FreeIPAServer_init
        (env_of (example_directory (Some ''cn=dns,dc=example,dc=com'')))
        ''ipa01.example.com'' ''example.com'' ''cn=Directory Manager'' ''secret'')
   = Inr (Some ''250'', Some 3, Some 2, Some 1, None, None, None, None,
          None, None, None, False)"
  by (simp add: init_defs)

end
